theory Spec2Isabelle
  imports Complex_Main "HOL-Library.AList" "HOL-Library.Stream"
begin

section \<open>The paper-trading ledger of \<^verbatim>\<open>sui_trading_bot.py\<close>\<close>

text \<open>
  The bot keeps every account in the module-level dictionary \<^verbatim>\<open>USERS\<close> and prices every
  trade with \<^verbatim>\<open>get_token_price\<close>, which draws a fluctuation from the module-level random
  generator. Both are global state of the Python process, so the model threads them
  through every function as one record, \<open>world\<close>.

  Numbers: the Python values are IEEE doubles, kept here as the reals they denote;
  infinities and NaN are outside the model. \<open>fl\<close> rounds a real to the nearest double.
  A buy stores numbers that come out of a chain of rounded operations (a quotient, then a
  product divided by that quotient), so \<^verbatim>\<open>process_buy_amount\<close> is modelled in double
  arithmetic, operation by operation. The other functions are modelled in exact
  arithmetic: what is proved of them is which branch runs and which expression is stored.
  The text a user types is parsed by \<^verbatim>\<open>float(...)\<close>; the model takes the parsed value as a
  \<open>real option\<close>, with \<open>None\<close> where \<^verbatim>\<open>float\<close> raises \<^verbatim>\<open>ValueError\<close>.

  Dictionaries: \<^verbatim>\<open>USERS\<close> is only ever indexed, so it is a map. A user's \<^verbatim>\<open>holdings\<close> are
  iterated by the two valuation functions, so they are an association list in insertion order:
  \<open>AList.update\<close> overwrites a present key in place and appends an absent one, as an
  assignment to a Python dict does, and \<open>AList.delete\<close> is \<^verbatim>\<open>del\<close>.
\<close>

subsection \<open>Double arithmetic\<close>

text \<open>
  \<open>rne\<close> rounds to the nearest integer, a tie to the even one. \<open>fl x\<close> is the double
  nearest to \<open>x\<close>: a 53-bit significand at the exponent of \<open>x\<close>, and below
  \<open>2 powr - 1022\<close> the fixed spacing \<open>2 powr - 1074\<close> of the subnormal numbers. Overflow to
  infinity, at \<open>2 powr 1024\<close>, is outside the model.
\<close>

definition pow2 :: "int \<Rightarrow> real" where
  "pow2 k = 2 powr of_int k"

definition rne :: "real \<Rightarrow> int" where
  "rne y = (let f = \<lfloor>y\<rfloor>; d = y - of_int f
            in if d < 1 / 2 then f else if 1 / 2 < d then f + 1
               else if even f then f else f + 1)"

definition fl :: "real \<Rightarrow> real" where
  "fl x = (if x = 0 then 0
           else let e = max \<lfloor>log 2 \<bar>x\<bar>\<rfloor> (- 1022) - 52
                in of_int (rne (x / pow2 e)) * pow2 e)"

text \<open>Python's \<^verbatim>\<open>+\<close>, \<^verbatim>\<open>-\<close>, \<^verbatim>\<open>*\<close> and \<^verbatim>\<open>/\<close> on floats.\<close>

definition float_add :: "real \<Rightarrow> real \<Rightarrow> real" where
  "float_add a b = fl (a + b)"

definition float_sub :: "real \<Rightarrow> real \<Rightarrow> real" where
  "float_sub a b = fl (a - b)"

definition float_mul :: "real \<Rightarrow> real \<Rightarrow> real" where
  "float_mul a b = fl (a * b)"

subsection \<open>Data\<close>

record token_info =
  name :: string
  price :: real

definition TOKENS :: "(string \<times> token_info) list" where
  "TOKENS =
     [(''SUI'', \<lparr>name = ''Sui'', price = 1.0\<rparr>),
      (''MOON'', \<lparr>name = ''Moon'', price = 0.5\<rparr>),
      (''STAR'', \<lparr>name = ''Star'', price = 0.75\<rparr>),
      (''ROCKET'', \<lparr>name = ''Rocket'', price = 1.25\<rparr>),
      (''GALAXY'', \<lparr>name = ''Galaxy'', price = 0.9\<rparr>)]"

definition REFERRAL_BONUS :: real where
  "REFERRAL_BONUS = 500.0"

record holding =
  quantity :: real
  avg_price :: real

text \<open>
  A user's dictionary has the keys \<^verbatim>\<open>"holdings"\<close> and \<^verbatim>\<open>"sui_balance"\<close> wherever the code
  builds one; the key \<^verbatim>\<open>"referral_bonus"\<close> is present in one of the two places only, so
  the field is optional: \<open>None\<close> is the absent key.
\<close>

record user_data =
  holdings :: "(string \<times> holding) list"
  sui_balance :: real
  referral_bonus :: "real option"

text \<open>
  \<open>draws\<close> holds the values that the coming calls of \<^verbatim>\<open>random.uniform(-0.05, 0.05)\<close>
  return, in call order.
\<close>

record world =
  USERS :: "int \<rightharpoonup> user_data"
  draws :: "real stream"

text \<open>
  The exceptions that no handler catches. A \<^verbatim>\<open>KeyError\<close> carries the key that was
  looked up: a user id in \<^verbatim>\<open>USERS\<close>, a string elsewhere.
\<close>

datatype py_key = Key_int int | Key_str string

datatype error = KeyError py_key | ZeroDivisionError

datatype conv_state = SELECTING_ACTION | ENTERING_TOKEN | ENTERING_AMOUNT | ENTERING_SELL_QUANTITY

text \<open>
  What a handler sends back, one constructor per message of the source, carrying the
  numbers the message prints:
  \<^item> \<open>Insufficient_SUI_balance\<close>: "Insufficient SUI balance. Please enter a smaller amount:"
  \<^item> \<open>Invalid_amount\<close>: "Invalid amount. Please enter a valid number:"
  \<^item> \<open>Bought quantity token amount current_price\<close>: "Trade executed! Bought ... for ... SUI"
  \<^item> \<open>Invalid_quantity_amount\<close>: "Invalid quantity. Please enter a valid amount:"
  \<^item> \<open>Invalid_quantity_number\<close>: "Invalid quantity. Please enter a valid number:"
  \<^item> \<open>Sold quantity token sui_received current_price\<close>: "Trade executed! Sold ... for ... SUI"
  \<^item> \<open>Portfolio_reset\<close>: "Portfolio has been reset. You now have 1000 SUI to start trading again."
  \<^item> \<open>Main_menu sui_balance referral_bonus total_pnl pnl_percent\<close>: the welcome message
  \<^item> \<open>Your_Balance sui_balance referral_bonus\<close>: the message of \<^verbatim>\<open>show_balance\<close>
  \<^item> \<open>Portfolio_PnL total_pnl pnl_percent\<close>: the message of \<^verbatim>\<open>show_pnl\<close>
  \<^item> \<open>Available_tokens lines\<close>: the message of \<^verbatim>\<open>view_tokens\<close>, a symbol and its price
    per line (the change and the volume it also prints are drawn from other ranges and
    are left out)
  \<^item> \<open>Portfolio_holdings balance lines\<close>: the message of \<^verbatim>\<open>show_portfolio\<close> for a user
    with holdings, a line per holding: token, quantity, average price, value, PnL and
    PnL percentage
  \<^item> \<open>Portfolio_empty balance\<close>: "You don't have any tokens yet. ..." after the balance
  \<^item> \<open>No_tokens_to_sell\<close>: "You don't have any tokens to sell."
  \<^item> \<open>Select_token_to_sell tokens\<close>: "Select token to sell:" with a button per holding
\<close>

text \<open>The two results of \<^verbatim>\<open>format_balance_message\<close>.\<close>

datatype balance_message =
    No_balance_found
  | Balance_message real real real real

type_synonym holding_line = "string \<times> real \<times> real \<times> real \<times> real \<times> real"

datatype reply =
    Insufficient_SUI_balance
  | Invalid_amount
  | Bought real string real real
  | Invalid_quantity_amount
  | Invalid_quantity_number
  | Sold real string real real
  | Portfolio_reset
  | Main_menu real real real real
  | Your_Balance real real
  | Portfolio_PnL real real
  | Available_tokens "(string \<times> real) list"
  | Portfolio_holdings balance_message "holding_line list"
  | Portfolio_empty balance_message
  | No_tokens_to_sell
  | Select_token_to_sell "string list"

type_synonym handler_result = "error + reply \<times> conv_state"

subsection \<open>The price oracle\<close>

text \<open>
  \<^verbatim>\<open>TOKENS[symbol]\<close> raises \<^verbatim>\<open>KeyError\<close> for an unknown symbol, before the generator is
  touched; otherwise one draw is consumed.
\<close>

definition get_token_price :: "world \<Rightarrow> string \<Rightarrow> (error + real) \<times> world" where
  "get_token_price w symbol =
     (case map_of TOKENS symbol of
        None \<Rightarrow> (Inl (KeyError (Key_str symbol)), w)
      | Some t \<Rightarrow>
          (let base_price = price t;
               fluctuation = shd (draws w)
           in (Inr (base_price * (1 + fluctuation)), w\<lparr>draws := stl (draws w)\<rparr>)))"

text \<open>
  Python's \<^verbatim>\<open>/\<close> on floats raises on a zero divisor: \<open>truediv\<close> with the exact quotient,
  \<open>float_truediv\<close> with the rounded one.
\<close>

definition truediv :: "real \<Rightarrow> real \<Rightarrow> error + real" where
  "truediv a b = (if b = 0 then Inl ZeroDivisionError else Inr (a / b))"

definition float_truediv :: "real \<Rightarrow> real \<Rightarrow> error + real" where
  "float_truediv a b = (if b = 0 then Inl ZeroDivisionError else Inr (fl (a / b)))"

subsection \<open>Valuation\<close>

fun portfolio_value_loop ::
  "(string \<times> holding) list \<Rightarrow> real \<Rightarrow> world \<Rightarrow> (error + real) \<times> world" where
  "portfolio_value_loop [] total_value w = (Inr total_value, w)"
| "portfolio_value_loop ((token, h) # rest) total_value w =
     (case get_token_price w token of
        (Inl e, w1) \<Rightarrow> (Inl e, w1)
      | (Inr current_price, w1) \<Rightarrow>
          portfolio_value_loop rest (total_value + quantity h * current_price) w1)"

definition get_portfolio_value :: "world \<Rightarrow> int \<Rightarrow> (error + real) \<times> world" where
  "get_portfolio_value w user_id =
     (case USERS w user_id of
        None \<Rightarrow> (Inr 0.0, w)
      | Some ud \<Rightarrow> portfolio_value_loop (holdings ud) 0.0 w)"

fun unrealized_pnl_loop ::
  "(string \<times> holding) list \<Rightarrow> real \<Rightarrow> world \<Rightarrow> (error + real) \<times> world" where
  "unrealized_pnl_loop [] total_pnl w = (Inr total_pnl, w)"
| "unrealized_pnl_loop ((token, h) # rest) total_pnl w =
     (case get_token_price w token of
        (Inl e, w1) \<Rightarrow> (Inl e, w1)
      | (Inr current_price, w1) \<Rightarrow>
          (let pnl = (current_price - avg_price h) * quantity h
           in unrealized_pnl_loop rest (total_pnl + pnl) w1))"

definition get_unrealized_pnl :: "world \<Rightarrow> int \<Rightarrow> (error + real) \<times> world" where
  "get_unrealized_pnl w user_id =
     (case USERS w user_id of
        None \<Rightarrow> (Inr 0.0, w)
      | Some ud \<Rightarrow> unrealized_pnl_loop (holdings ud) 0.0 w)"

text \<open>
  The conditional expression \<^verbatim>\<open>(total_pnl / total_value * 100) if total_value > 0 else 0\<close>,
  which \<^verbatim>\<open>format_balance_message\<close>, \<^verbatim>\<open>format_main_menu\<close> and \<^verbatim>\<open>show_pnl\<close> each contain,
  and \<^verbatim>\<open>show_portfolio\<close> once more for every holding. The division goes through
  \<open>truediv\<close>, so a zero divisor in the first branch would show as an error.
\<close>

definition pnl_percent :: "real \<Rightarrow> real \<Rightarrow> error + real" where
  "pnl_percent total_pnl total_value =
     (if total_value > 0
      then (case truediv total_pnl total_value of
              Inl e \<Rightarrow> Inl e
            | Inr r \<Rightarrow> Inr (r * 100))
      else Inr 0)"

definition format_balance_message :: "world \<Rightarrow> int \<Rightarrow> (error + balance_message) \<times> world" where
  "format_balance_message w user_id =
     (case USERS w user_id of
        None \<Rightarrow> (Inr No_balance_found, w)
      | Some ud \<Rightarrow>
          (case get_portfolio_value w user_id of
             (Inl e, w1) \<Rightarrow> (Inl e, w1)
           | (Inr total_value, w1) \<Rightarrow>
               (case get_unrealized_pnl w1 user_id of
                  (Inl e, w2) \<Rightarrow> (Inl e, w2)
                | (Inr total_pnl, w2) \<Rightarrow>
                    (case pnl_percent total_pnl total_value of
                       Inl e \<Rightarrow> (Inl e, w2)
                     | Inr pnl_percentage \<Rightarrow>
                         (Inr (Balance_message (sui_balance ud) total_value total_pnl
                                 pnl_percentage), w2)))))"

text \<open>\<^verbatim>\<open>view_tokens\<close> prices every key of \<^verbatim>\<open>TOKENS\<close> but SUI, in the order of the table.\<close>

fun view_tokens_loop ::
  "(string \<times> token_info) list \<Rightarrow> (string \<times> real) list \<Rightarrow> world \<Rightarrow>
     (error + (string \<times> real) list) \<times> world" where
  "view_tokens_loop [] message w = (Inr message, w)"
| "view_tokens_loop ((symbol, data) # rest) message w =
     (if symbol \<noteq> ''SUI''
      then (case get_token_price w symbol of
              (Inl e, w1) \<Rightarrow> (Inl e, w1)
            | (Inr current_price, w1) \<Rightarrow>
                view_tokens_loop rest (message @ [(symbol, current_price)]) w1)
      else view_tokens_loop rest message w)"

definition view_tokens :: "world \<Rightarrow> handler_result \<times> world" where
  "view_tokens w =
     (case view_tokens_loop TOKENS [] w of
        (Inl e, w1) \<Rightarrow> (Inl e, w1)
      | (Inr message, w1) \<Rightarrow> (Inr (Available_tokens message, SELECTING_ACTION), w1))"

text \<open>
  \<^verbatim>\<open>show_portfolio\<close> indexes \<^verbatim>\<open>USERS\<close> directly, prints the balance summary and then
  prices every holding once more; each line has a percentage of its own, computed by the
  same conditional expression from the holding's \<^verbatim>\<open>pnl\<close> and \<^verbatim>\<open>value\<close>.
\<close>

fun show_portfolio_loop ::
  "(string \<times> holding) list \<Rightarrow> holding_line list \<Rightarrow> world \<Rightarrow>
     (error + holding_line list) \<times> world" where
  "show_portfolio_loop [] message w = (Inr message, w)"
| "show_portfolio_loop ((token, h) # rest) message w =
     (case get_token_price w token of
        (Inl e, w1) \<Rightarrow> (Inl e, w1)
      | (Inr current_price, w1) \<Rightarrow>
          (let value = quantity h * current_price;
               pnl = (current_price - avg_price h) * quantity h
           in (case pnl_percent pnl value of
                 Inl e \<Rightarrow> (Inl e, w1)
               | Inr pnl_percentage \<Rightarrow>
                   show_portfolio_loop rest
                     (message @ [(token, quantity h, avg_price h, value, pnl, pnl_percentage)])
                     w1)))"

definition show_portfolio :: "world \<Rightarrow> int \<Rightarrow> handler_result \<times> world" where
  "show_portfolio w user_id =
     (case USERS w user_id of
        None \<Rightarrow> (Inl (KeyError (Key_int user_id)), w)
      | Some ud \<Rightarrow>
          (case format_balance_message w user_id of
             (Inl e, w1) \<Rightarrow> (Inl e, w1)
           | (Inr balance, w1) \<Rightarrow>
               if holdings ud \<noteq> []
               then (case show_portfolio_loop (holdings ud) [] w1 of
                       (Inl e, w2) \<Rightarrow> (Inl e, w2)
                     | (Inr message, w2) \<Rightarrow>
                         (Inr (Portfolio_holdings balance message, SELECTING_ACTION), w2))
               else (Inr (Portfolio_empty balance, SELECTING_ACTION), w1)))"

subsection \<open>Accounts\<close>

definition get_user_data :: "world \<Rightarrow> int \<Rightarrow> user_data \<times> world" where
  "get_user_data w user_id =
     (case USERS w user_id of
        None \<Rightarrow>
          (let ud = \<lparr>holdings = [], sui_balance = 1000.0,
                     referral_bonus = Some REFERRAL_BONUS\<rparr>
           in (ud, w\<lparr>USERS := (USERS w)(user_id \<mapsto> ud)\<rparr>))
      | Some ud \<Rightarrow> (ud, w))"

text \<open>
  The welcome message reads \<^verbatim>\<open>user_data['sui_balance']\<close> and then
  \<^verbatim>\<open>user_data['referral_bonus']\<close>, after the two valuation passes.
\<close>

definition format_main_menu :: "world \<Rightarrow> int \<Rightarrow> (error + reply) \<times> world" where
  "format_main_menu w user_id =
     (case get_user_data w user_id of
        (ud, w0) \<Rightarrow>
          (case get_portfolio_value w0 user_id of
             (Inl e, w1) \<Rightarrow> (Inl e, w1)
           | (Inr total_value, w1) \<Rightarrow>
               (case get_unrealized_pnl w1 user_id of
                  (Inl e, w2) \<Rightarrow> (Inl e, w2)
                | (Inr total_pnl, w2) \<Rightarrow>
                    (case pnl_percent total_pnl total_value of
                       Inl e \<Rightarrow> (Inl e, w2)
                     | Inr pp \<Rightarrow>
                         (case referral_bonus ud of
                            None \<Rightarrow> (Inl (KeyError (Key_str ''referral_bonus'')), w2)
                          | Some bonus \<Rightarrow>
                              (Inr (Main_menu (sui_balance ud) bonus total_pnl pp), w2))))))"

definition start :: "world \<Rightarrow> int \<Rightarrow> handler_result \<times> world" where
  "start w user_id =
     (case get_user_data w user_id of
        (ud, w0) \<Rightarrow>
          (case format_main_menu w0 user_id of
             (Inl e, w1) \<Rightarrow> (Inl e, w1)
           | (Inr welcome_msg, w1) \<Rightarrow> (Inr (welcome_msg, SELECTING_ACTION), w1)))"

definition back_to_main :: "world \<Rightarrow> int \<Rightarrow> handler_result \<times> world" where
  "back_to_main w user_id =
     (case format_main_menu w user_id of
        (Inl e, w1) \<Rightarrow> (Inl e, w1)
      | (Inr welcome_msg, w1) \<Rightarrow> (Inr (welcome_msg, SELECTING_ACTION), w1))"

definition show_balance :: "world \<Rightarrow> int \<Rightarrow> handler_result \<times> world" where
  "show_balance w user_id =
     (case get_user_data w user_id of
        (ud, w0) \<Rightarrow>
          (case referral_bonus ud of
             None \<Rightarrow> (Inl (KeyError (Key_str ''referral_bonus'')), w0)
           | Some bonus \<Rightarrow> (Inr (Your_Balance (sui_balance ud) bonus, SELECTING_ACTION), w0)))"

definition show_pnl :: "world \<Rightarrow> int \<Rightarrow> handler_result \<times> world" where
  "show_pnl w user_id =
     (case get_portfolio_value w user_id of
        (Inl e, w1) \<Rightarrow> (Inl e, w1)
      | (Inr total_value, w1) \<Rightarrow>
          (case get_unrealized_pnl w1 user_id of
             (Inl e, w2) \<Rightarrow> (Inl e, w2)
           | (Inr total_pnl, w2) \<Rightarrow>
               (case pnl_percent total_pnl total_value of
                  Inl e \<Rightarrow> (Inl e, w2)
                | Inr pp \<Rightarrow> (Inr (Portfolio_PnL total_pnl pp, SELECTING_ACTION), w2))))"

definition reset_portfolio :: "world \<Rightarrow> int \<Rightarrow> handler_result \<times> world" where
  "reset_portfolio w user_id =
     (Inr (Portfolio_reset, SELECTING_ACTION),
      w\<lparr>USERS := (USERS w)(user_id \<mapsto>
           \<lparr>holdings = [], sui_balance = 1000.0, referral_bonus = None\<rparr>)\<rparr>)"

subsection \<open>Trades\<close>

text \<open>
  \<^verbatim>\<open>process_buy_token\<close> stores a symbol as \<^verbatim>\<open>buy_token\<close> only when its guard
  \<^verbatim>\<open>token not in TOKENS or token == "SUI"\<close> is false.
\<close>

definition buy_token_accepted :: "string \<Rightarrow> bool" where
  "buy_token_accepted token \<longleftrightarrow> \<not> (map_of TOKENS token = None \<or> token = ''SUI'')"

text \<open>
  \<open>token\<close> is \<^verbatim>\<open>context.user_data["buy_token"]\<close> and \<open>text\<close> the parsed message. The
  handler is registered for the state \<open>ENTERING_AMOUNT\<close> only, which
  \<^verbatim>\<open>process_buy_token\<close> enters after storing the symbol, so that lookup finds it. The
  local \<^verbatim>\<open>quantity\<close> of the source is \<open>qty\<close> here, since \<open>quantity\<close> is the field.
  The placeholder holding is stored before the average is computed, so a division by zero
  there leaves it behind. The placeholder's \<^verbatim>\<open>0\<close> are Python integers; adding a float to
  them or multiplying them is exact, which rounding the exact result gives as well.
\<close>

definition process_buy_amount ::
  "world \<Rightarrow> int \<Rightarrow> string \<Rightarrow> real option \<Rightarrow> handler_result \<times> world" where
  "process_buy_amount w user_id token text =
     (case text of
        None \<Rightarrow> (Inr (Invalid_amount, ENTERING_AMOUNT), w)
      | Some amount \<Rightarrow>
     (case USERS w user_id of
        None \<Rightarrow> (Inl (KeyError (Key_int user_id)), w)
      | Some ud \<Rightarrow>
          if amount \<le> 0 then (Inr (Invalid_amount, ENTERING_AMOUNT), w)
          else if amount > sui_balance ud
          then (Inr (Insufficient_SUI_balance, ENTERING_AMOUNT), w)
          else
     (case get_token_price w token of
        (Inl e, w1) \<Rightarrow> (Inl e, w1)
      | (Inr current_price, w1) \<Rightarrow>
     (case float_truediv amount current_price of
        Inl e \<Rightarrow> (Inl e, w1)
      | Inr qty \<Rightarrow>
          (let hs = (case map_of (holdings ud) token of
                       None \<Rightarrow> AList.update token \<lparr>quantity = 0, avg_price = 0\<rparr> (holdings ud)
                     | Some _ \<Rightarrow> holdings ud);
               old = (case map_of (holdings ud) token of
                        None \<Rightarrow> \<lparr>quantity = 0, avg_price = 0\<rparr>
                      | Some h \<Rightarrow> h);
               old_quantity = quantity old;
               old_avg_price = avg_price old;
               new_quantity = float_add old_quantity qty
           in (case float_truediv
                     (float_add (float_mul old_quantity old_avg_price)
                        (float_mul qty current_price))
                     new_quantity of
                 Inl e \<Rightarrow> (Inl e, w1\<lparr>USERS := (USERS w1)(user_id \<mapsto> ud\<lparr>holdings := hs\<rparr>)\<rparr>)
               | Inr new_avg_price \<Rightarrow>
                   (Inr (Bought qty token amount current_price, SELECTING_ACTION),
                    w1\<lparr>USERS := (USERS w1)(user_id \<mapsto>
                         ud\<lparr>holdings :=
                              AList.update token
                                \<lparr>quantity = new_quantity, avg_price = new_avg_price\<rparr> hs,
                            sui_balance := float_sub (sui_balance ud) amount\<rparr>)\<rparr>)))))))"

text \<open>\<open>token\<close> is \<^verbatim>\<open>context.user_data["sell_token"]\<close>; \<open>qty\<close> is the local \<^verbatim>\<open>quantity\<close>.\<close>

definition process_sell_quantity ::
  "world \<Rightarrow> int \<Rightarrow> string \<Rightarrow> real option \<Rightarrow> handler_result \<times> world" where
  "process_sell_quantity w user_id token text =
     (case text of
        None \<Rightarrow> (Inr (Invalid_quantity_number, ENTERING_SELL_QUANTITY), w)
      | Some qty \<Rightarrow>
     (case USERS w user_id of
        None \<Rightarrow> (Inl (KeyError (Key_int user_id)), w)
      | Some ud \<Rightarrow>
          if qty \<le> 0 then (Inr (Invalid_quantity_number, ENTERING_SELL_QUANTITY), w)
          else
     (case map_of (holdings ud) token of
        None \<Rightarrow> (Inr (Invalid_quantity_amount, ENTERING_SELL_QUANTITY), w)
      | Some h \<Rightarrow>
          if qty > quantity h
          then (Inr (Invalid_quantity_amount, ENTERING_SELL_QUANTITY), w)
          else
     (case get_token_price w token of
        (Inl e, w1) \<Rightarrow> (Inl e, w1)
      | (Inr current_price, w1) \<Rightarrow>
          (let sui_received = qty * current_price;
               h' = h\<lparr>quantity := quantity h - qty\<rparr>;
               hs = (if quantity h' = 0 then AList.delete token (holdings ud)
                     else AList.update token h' (holdings ud))
           in (Inr (Sold qty token sui_received current_price, SELECTING_ACTION),
               w1\<lparr>USERS := (USERS w1)(user_id \<mapsto>
                    ud\<lparr>holdings := hs,
                       sui_balance := sui_balance ud + sui_received\<rparr>)\<rparr>))))))"

text \<open>\<^verbatim>\<open>start_sell\<close> indexes \<^verbatim>\<open>USERS\<close> directly and offers a button per holding.\<close>

definition start_sell :: "world \<Rightarrow> int \<Rightarrow> handler_result \<times> world" where
  "start_sell w user_id =
     (case USERS w user_id of
        None \<Rightarrow> (Inl (KeyError (Key_int user_id)), w)
      | Some ud \<Rightarrow>
          if holdings ud = [] then (Inr (No_tokens_to_sell, SELECTING_ACTION), w)
          else (Inr (Select_token_to_sell (map fst (holdings ud)), ENTERING_SELL_QUANTITY), w))"

subsection \<open>Runs of the bot\<close>

text \<open>
  One constructor for each handler that reads or writes \<^verbatim>\<open>USERS\<close> or calls the oracle;
  the remaining handlers (the tutorials, the three "coming soon" pages, \<^verbatim>\<open>start_buy\<close>,
  \<^verbatim>\<open>process_buy_token\<close> and \<^verbatim>\<open>process_sell_token\<close>) touch neither. The
  dispatcher of \<^verbatim>\<open>main\<close> offers a handler only in some conversation states; \<open>run\<close>
  accepts the events in any order, which covers every order the dispatcher allows. An
  exception that leaves a handler is logged by the framework and the process goes on with
  whatever the handler had written, so \<open>run\<close> continues from the handler's world.
\<close>

datatype event =
    Start int
  | Process_buy_amount int string "real option"
  | Process_sell_quantity int string "real option"
  | Reset_portfolio int
  | Back_to_main int
  | Show_balance int
  | Show_pnl int
  | View_tokens
  | Show_portfolio int
  | Start_sell int

fun handle :: "world \<Rightarrow> event \<Rightarrow> handler_result \<times> world" where
  "handle w (Start user_id) = start w user_id"
| "handle w (Process_buy_amount user_id token text) = process_buy_amount w user_id token text"
| "handle w (Process_sell_quantity user_id token text) =
     process_sell_quantity w user_id token text"
| "handle w (Reset_portfolio user_id) = reset_portfolio w user_id"
| "handle w (Back_to_main user_id) = back_to_main w user_id"
| "handle w (Show_balance user_id) = show_balance w user_id"
| "handle w (Show_pnl user_id) = show_pnl w user_id"
| "handle w View_tokens = view_tokens w"
| "handle w (Show_portfolio user_id) = show_portfolio w user_id"
| "handle w (Start_sell user_id) = start_sell w user_id"

fun run :: "world \<Rightarrow> event list \<Rightarrow> world" where
  "run w [] = w"
| "run w (ev # evs) = run (snd (handle w ev)) evs"

text \<open>Every held symbol is a key of \<^verbatim>\<open>TOKENS\<close>, so the oracle prices it.\<close>

definition priced :: "(string \<times> holding) list \<Rightarrow> bool" where
  "priced hs \<longleftrightarrow> (\<forall>t \<in> fst ` set hs. map_of TOKENS t \<noteq> None)"

text \<open>
  The user has an account, it lacks the key \<^verbatim>\<open>"referral_bonus"\<close>, and its holdings are
  priced.
\<close>

definition no_bonus :: "world \<Rightarrow> int \<Rightarrow> bool" where
  "no_bonus w user_id \<longleftrightarrow>
     (case USERS w user_id of
        None \<Rightarrow> False
      | Some ud \<Rightarrow> referral_bonus ud = None \<and> priced (holdings ud))"

subsection \<open>The data-model invariant\<close>

text \<open>
  The specification's data model: a balance is never negative, a user has at most one
  holding per symbol, a held symbol is one that \<^verbatim>\<open>process_buy_token\<close> accepts, and a
  holding exists only while its quantity is positive.
\<close>

definition wf_user_data :: "user_data \<Rightarrow> bool" where
  "wf_user_data ud \<longleftrightarrow>
     0 \<le> sui_balance ud \<and> distinct (map fst (holdings ud)) \<and>
     (\<forall>(t, h) \<in> set (holdings ud). buy_token_accepted t \<and> 0 < quantity h)"

definition wf_users :: "world \<Rightarrow> bool" where
  "wf_users w \<longleftrightarrow> (\<forall>u ud. USERS w u = Some ud \<longrightarrow> wf_user_data ud)"

text \<open>Every coming draw lies in the interval that \<^verbatim>\<open>random.uniform(-0.05, 0.05)\<close> samples.\<close>

definition draws_in_range :: "world \<Rightarrow> bool" where
  "draws_in_range w \<longleftrightarrow> (\<forall>f \<in> sset (draws w). - 0.05 \<le> f \<and> f \<le> 0.05)"

definition wf_world :: "world \<Rightarrow> bool" where
  "wf_world w \<longleftrightarrow> wf_users w \<and> draws_in_range w"

text \<open>
  The symbol of a buy is \<^verbatim>\<open>context.user_data["buy_token"]\<close>, which only
  \<^verbatim>\<open>process_buy_token\<close> writes, after its guard; the amount is what \<^verbatim>\<open>float\<close> returned,
  a double.
\<close>

fun accepted_event :: "event \<Rightarrow> bool" where
  "accepted_event (Process_buy_amount user_id token text) =
     (buy_token_accepted token \<and>
      (case text of None \<Rightarrow> True | Some amount \<Rightarrow> fl amount = amount))"
| "accepted_event _ = True"

subsection \<open>Concrete worlds\<close>

text \<open>A process in which nobody has an account yet.\<close>

definition quiet_world :: "real stream \<Rightarrow> world" where
  "quiet_world ds = \<lparr>USERS = Map.empty, draws = ds\<rparr>"

text \<open>User 7 right after \<^verbatim>\<open>get_user_data\<close> created the account.\<close>

definition newcomer :: "real stream \<Rightarrow> world" where
  "newcomer ds =
     \<lparr>USERS = [7 \<mapsto> \<lparr>holdings = [], sui_balance = 1000,
                     referral_bonus = Some REFERRAL_BONUS\<rparr>],
      draws = ds\<rparr>"

text \<open>What a user holds of a symbol, if the user exists and holds it.\<close>

definition holding_of :: "world \<Rightarrow> int \<Rightarrow> string \<Rightarrow> holding option" where
  "holding_of w user_id token =
     (case USERS w user_id of None \<Rightarrow> None | Some ud \<Rightarrow> map_of (holdings ud) token)"

text \<open>User 7 after buying MOON for 100 SUI at the price 0.5.\<close>

definition moon_holder :: "real stream \<Rightarrow> world" where
  "moon_holder ds =
     \<lparr>USERS = [7 \<mapsto> \<lparr>holdings = [(''MOON'', \<lparr>quantity = 200, avg_price = 0.5\<rparr>)],
                     sui_balance = 900, referral_bonus = Some REFERRAL_BONUS\<rparr>],
      draws = ds\<rparr>"

section \<open>Properties\<close>

subsection \<open>Double arithmetic\<close>

lemma pow2_pos: "0 < pow2 k"
  by (simp add: pow2_def)

lemma pow2_add: "pow2 (a + b) = pow2 a * pow2 b"
  by (simp add: pow2_def powr_add)

lemma pow2_mono: "a \<le> b \<Longrightarrow> pow2 a \<le> pow2 b"
  by (simp add: pow2_def)

lemma pow2_less_cancel: "pow2 a < pow2 b \<Longrightarrow> a < b"
  by (simp add: pow2_def)

lemma pow2_nat: "0 \<le> k \<Longrightarrow> pow2 k = of_int (2 ^ nat k)"
  by (simp add: pow2_def powr_int)

lemma pow2_53: "pow2 53 = of_int (2 ^ 53)"
  using pow2_nat [of 53] by simp

lemma rne_of_int: "rne (of_int m) = m"
  by (simp add: rne_def)

lemma rne_cases: "rne y = \<lfloor>y\<rfloor> \<or> rne y = \<lfloor>y\<rfloor> + 1"
  by (auto simp: rne_def Let_def)

lemma rne_nonneg: "0 \<le> y \<Longrightarrow> 0 \<le> rne y"
proof -
  assume "0 \<le> y"
  then have "0 \<le> \<lfloor>y\<rfloor>" by simp
  then show ?thesis using rne_cases [of y] by auto
qed

lemma rne_pos: "1 / 2 < y \<Longrightarrow> 0 < rne y"
proof -
  assume a: "1 / 2 < y"
  then have f: "0 \<le> \<lfloor>y\<rfloor>" by simp
  show ?thesis
  proof (cases "\<lfloor>y\<rfloor> = 0")
    case True
    then show ?thesis using a by (simp add: rne_def Let_def)
  next
    case False
    with f have "0 < \<lfloor>y\<rfloor>" by linarith
    then show ?thesis using rne_cases [of y] by auto
  qed
qed

lemma rne_bound:
  assumes "\<bar>y\<bar> < of_int N"
  shows "\<bar>rne y\<bar> \<le> N"
proof -
  have lo: "- of_int N < y" and hi: "y < of_int N" using assms by auto
  have f1: "\<lfloor>y\<rfloor> < N" using hi by (simp add: floor_less_iff)
  have f2: "- N \<le> \<lfloor>y\<rfloor>" using lo by (simp add: le_floor_iff)
  show ?thesis using rne_cases [of y] f1 f2 by auto
qed

lemma floor_log2_bounds:
  assumes "x \<noteq> 0"
  shows "pow2 \<lfloor>log 2 \<bar>x\<bar>\<rfloor> \<le> \<bar>x\<bar>"
    and "\<bar>x\<bar> < pow2 (\<lfloor>log 2 \<bar>x\<bar>\<rfloor> + 1)"
  using assms floor_log_eq_powr_iff [of "\<bar>x\<bar>" 2 "\<lfloor>log 2 \<bar>x\<bar>\<rfloor>"]
  by (simp_all add: pow2_def)

lemma fl_0: "fl 0 = 0"
  by (simp add: fl_def)

lemma fl_normal:
  assumes "pow2 k \<le> \<bar>x\<bar>" and "\<bar>x\<bar> < pow2 (k + 1)" and "- 1022 \<le> k"
  shows "fl x = of_int (rne (x / pow2 (k - 52))) * pow2 (k - 52)"
proof -
  have pos: "0 < \<bar>x\<bar>" using assms(1) pow2_pos [of k] by linarith
  then have "\<lfloor>log 2 \<bar>x\<bar>\<rfloor> = k"
    using assms(1,2) floor_log_eq_powr_iff [of "\<bar>x\<bar>" 2 k] by (simp add: pow2_def)
  then show ?thesis using pos assms(3) by (simp add: fl_def Let_def max_def)
qed

lemma fl_subnormal:
  assumes "x \<noteq> 0" and "\<bar>x\<bar> < pow2 (- 1022)"
  shows "fl x = of_int (rne (x / pow2 (- 1074))) * pow2 (- 1074)"
proof -
  have "\<lfloor>log 2 \<bar>x\<bar>\<rfloor> < - 1022"
  proof (rule ccontr)
    assume "\<not> \<lfloor>log 2 \<bar>x\<bar>\<rfloor> < - 1022"
    then have "- 1022 \<le> \<lfloor>log 2 \<bar>x\<bar>\<rfloor>" by simp
    then have "pow2 (- 1022) \<le> pow2 \<lfloor>log 2 \<bar>x\<bar>\<rfloor>"
      by (rule pow2_mono)
    also have "\<dots> \<le> \<bar>x\<bar>" using floor_log2_bounds(1) [OF assms(1)] .
    finally show False using assms(2) by simp
  qed
  then show ?thesis using assms(1) by (simp add: fl_def Let_def max_def)
qed

text \<open>The shape of a rounded value.\<close>

lemma fl_repr:
  assumes "x \<noteq> 0"
  shows "\<exists>n e. fl x = of_int n * pow2 e \<and> \<bar>n\<bar> \<le> 2 ^ 53 \<and> - 1074 \<le> e \<and>
           n = rne (x / pow2 e) \<and> e = max \<lfloor>log 2 \<bar>x\<bar>\<rfloor> (- 1022) - 52"
proof -
  define E where "E = max \<lfloor>log 2 \<bar>x\<bar>\<rfloor> (- 1022)"
  define e where "e = E - 52"
  define n where "n = rne (x / pow2 e)"
  have eq: "fl x = of_int n * pow2 e"
    using assms by (simp add: fl_def Let_def E_def e_def n_def)
  have "\<lfloor>log 2 \<bar>x\<bar>\<rfloor> + 1 \<le> E + 1" by (simp add: E_def)
  then have "pow2 (\<lfloor>log 2 \<bar>x\<bar>\<rfloor> + 1) \<le> pow2 (E + 1)" by (rule pow2_mono)
  then have "\<bar>x\<bar> < pow2 (E + 1)"
    using floor_log2_bounds(2) [OF assms] by linarith
  moreover have "E + 1 = e + 53" by (simp add: e_def)
  then have "pow2 (E + 1) = pow2 e * pow2 53"
    by (simp only: pow2_add)
  ultimately have "\<bar>x\<bar> < pow2 e * pow2 53" by simp
  then have "\<bar>x\<bar> / pow2 e < pow2 53"
    using pow2_pos [of e] by (simp add: field_simps)
  then have "\<bar>x / pow2 e\<bar> < of_int (2 ^ 53)"
    using pow2_pos [of e] by (simp add: pow2_53)
  then have "\<bar>n\<bar> \<le> 2 ^ 53" unfolding n_def by (rule rne_bound)
  moreover have "- 1074 \<le> e" by (simp add: e_def E_def)
  ultimately show ?thesis using eq n_def e_def E_def by blast
qed

text \<open>A value with at most 53 significant bits at an exponent in range is its own rounding.\<close>

lemma fl_fixed:
  assumes y: "y = of_int n * pow2 k" and n: "\<bar>n\<bar> < 2 ^ 53" and k: "- 1074 \<le> k"
  shows "fl y = y"
proof (cases "n = 0")
  case True
  then show ?thesis using y by (simp add: fl_0)
next
  case False
  then have y0: "y \<noteq> 0" using y pow2_pos [of k] by simp
  define L where "L = \<lfloor>log 2 \<bar>y\<bar>\<rfloor>"
  define e where "e = max L (- 1022) - 52"
  have absy: "\<bar>y\<bar> = of_int \<bar>n\<bar> * pow2 k"
    using y pow2_pos [of k] by (simp add: abs_mult)
  have "of_int \<bar>n\<bar> < (of_int (2 ^ 53) :: real)"
    using n by (simp only: of_int_less_iff)
  then have "\<bar>y\<bar> < of_int (2 ^ 53) * pow2 k"
    using absy pow2_pos [of k] by simp
  also have "\<dots> = pow2 (k + 53)"
    using pow2_add [of k 53] by (simp add: pow2_53)
  finally have "\<bar>y\<bar> < pow2 (k + 53)" .
  then have "pow2 L < pow2 (k + 53)"
    using floor_log2_bounds(1) [OF y0] by (simp add: L_def)
  then have "L < k + 53" by (rule pow2_less_cancel)
  then have ek: "e \<le> k" using k by (simp add: e_def)
  define m where "m = nat (k - e)"
  have "pow2 k = pow2 (k - e) * pow2 e"
    using pow2_add [of "k - e" e] by simp
  also have "pow2 (k - e) = of_int (2 ^ m)"
    using ek pow2_nat [of "k - e"] by (simp add: m_def)
  finally have pk: "pow2 k = of_int (2 ^ m) * pow2 e" .
  have "y / pow2 e = of_int (n * 2 ^ m)"
    using y pk pow2_pos [of e] by simp
  then have "rne (y / pow2 e) = n * 2 ^ m"
    by (simp only: rne_of_int)
  then have "fl y = of_int (n * 2 ^ m) * pow2 e"
    using y0 by (simp add: fl_def Let_def e_def L_def)
  also have "\<dots> = y" using y pk by simp
  finally show ?thesis .
qed

lemma fl_idem: "fl (fl x) = fl x"
proof (cases "x = 0")
  case True
  then show ?thesis by (simp add: fl_0)
next
  case False
  from fl_repr [OF False] obtain n e where
    eq: "fl x = of_int n * pow2 e" and n: "\<bar>n\<bar> \<le> 2 ^ 53" and e: "- 1074 \<le> e"
    by blast
  show ?thesis
  proof (cases "\<bar>n\<bar> < 2 ^ 53")
    case True
    show ?thesis by (rule fl_fixed [OF eq True e])
  next
    case False
    then have "n = 2 ^ 53 \<or> n = - (2 ^ 53)" using n by auto
    then obtain h :: int where h: "n = 2 * h" "\<bar>h\<bar> < 2 ^ 53"
      by (auto intro: that [of "2 ^ 52"] that [of "- (2 ^ 52)"])
    have "pow2 (e + 1) = pow2 e * 2"
      using pow2_add [of e 1] pow2_nat [of 1] by simp
    then have "fl x = of_int h * pow2 (e + 1)"
      using eq h(1) by simp
    moreover have "- 1074 \<le> e + 1" using e by simp
    ultimately show ?thesis using h(2) fl_fixed [of "fl x" h "e + 1"] by simp
  qed
qed

lemma fl_nonneg: "0 \<le> x \<Longrightarrow> 0 \<le> fl x"
proof (cases "x = 0")
  case True
  then show ?thesis by (simp add: fl_0)
next
  case False
  assume "0 \<le> x"
  from fl_repr [OF False] obtain n e where
    eq: "fl x = of_int n * pow2 e" and nd: "n = rne (x / pow2 e)"
    by blast
  have "0 \<le> x / pow2 e" using \<open>0 \<le> x\<close> pow2_pos [of e] by simp
  then have "0 \<le> n" unfolding nd by (rule rne_nonneg)
  then show ?thesis using eq pow2_pos [of e] by simp
qed

text \<open>A positive value above half the smallest subnormal does not round to zero.\<close>

lemma fl_pos:
  assumes "pow2 (- 1075) < x"
  shows "0 < fl x"
proof -
  have x0: "0 < x" using assms pow2_pos [of "- 1075"] by linarith
  then have "x \<noteq> 0" by simp
  from fl_repr [OF this] obtain n e where
    eq: "fl x = of_int n * pow2 e" and nd: "n = rne (x / pow2 e)"
    and ed: "e = max \<lfloor>log 2 \<bar>x\<bar>\<rfloor> (- 1022) - 52"
    by blast
  have "1 / 2 < x / pow2 e"
  proof (cases "\<lfloor>log 2 \<bar>x\<bar>\<rfloor> \<le> - 1022")
    case True
    then have "e = - 1074" using ed by simp
    moreover have "pow2 (- 1075) * 2 = pow2 (- 1074)"
      using pow2_add [of "- 1075" 1] pow2_nat [of 1] by simp
    ultimately show ?thesis
      using assms pow2_pos [of "- 1074"] by (simp add: field_simps)
  next
    case False
    then have el: "e = \<lfloor>log 2 \<bar>x\<bar>\<rfloor> - 52" using ed by simp
    have "pow2 (e + 52) \<le> \<bar>x\<bar>"
      using floor_log2_bounds(1) [OF \<open>x \<noteq> 0\<close>] by (simp add: el)
    moreover have "pow2 (e + 52) = pow2 e * of_int (2 ^ 52)"
      using pow2_add [of e 52] pow2_nat [of 52] by simp
    ultimately have "pow2 e * of_int (2 ^ 52) \<le> x" using x0 by simp
    then have "of_int (2 ^ 52) \<le> x / pow2 e"
      using pow2_pos [of e] by (simp add: field_simps)
    moreover have "(1::real) / 2 < of_int (2 ^ 52)" by simp
    ultimately show ?thesis by linarith
  qed
  then have "0 < n" unfolding nd by (rule rne_pos)
  then show ?thesis using eq pow2_pos [of e] by simp
qed

text \<open>No positive rounded value lies below the smallest subnormal.\<close>

lemma fl_pos_ge:
  assumes "0 < fl x"
  shows "pow2 (- 1074) \<le> fl x"
proof -
  have "x \<noteq> 0" using assms by (auto simp: fl_0)
  from fl_repr [OF this] obtain n e where
    eq: "fl x = of_int n * pow2 e" and e: "- 1074 \<le> e"
    by blast
  have "0 < n" using assms eq pow2_pos [of e] by (simp add: zero_less_mult_iff)
  then have "(1::real) \<le> of_int n" by simp
  then have "pow2 e \<le> of_int n * pow2 e"
    using pow2_pos [of e] by simp
  moreover have "pow2 (- 1074) \<le> pow2 e" using e by (rule pow2_mono)
  ultimately show ?thesis using eq by simp
qed

lemma pow2_1075: "pow2 (- 1075) * 2 = pow2 (- 1074)"
  using pow2_add [of "- 1075" 1] pow2_nat [of 1] by simp

text \<open>
  Evaluating \<open>fl\<close>: the exponent \<open>k\<close> and the rounded significand \<open>n\<close> are given and
  checked.
\<close>

lemma fl_at:
  assumes "pow2 k \<le> \<bar>x\<bar>" and "\<bar>x\<bar> < pow2 (k + 1)" and "- 1022 \<le> k"
    and "rne (x / pow2 (k - 52)) = n" and "of_int n * pow2 (k - 52) = y"
  shows "fl x = y"
  using fl_normal [OF assms(1,2,3)] assms(4,5) by simp

lemma float_add_0: "float_add 0 (fl x) = fl x"
  by (simp add: float_add_def fl_idem)

lemma float_mul_0: "float_mul 0 x = 0"
  by (simp add: float_mul_def fl_0)

text \<open>
  What a buy needs: a positive double divided by a price below 2 is not rounded to zero,
  and adding it to a non-negative quantity is not either.
\<close>

lemma quantity_bought_pos:
  assumes "0 < amount" and "fl amount = amount" and "0 < p" and "p < 2"
  shows "0 < fl (amount / p)"
proof -
  have "0 < fl amount" using assms(1,2) by simp
  then have "pow2 (- 1074) \<le> fl amount" by (rule fl_pos_ge)
  then have a: "pow2 (- 1075) * 2 \<le> amount" using assms(2) pow2_1075 by simp
  have "pow2 (- 1075) * p < pow2 (- 1075) * 2"
    using assms(4) pow2_pos [of "- 1075"] by simp
  then have "pow2 (- 1075) * p < amount" using a by linarith
  then have "pow2 (- 1075) < amount / p"
    using assms(3) by (simp add: field_simps)
  then show ?thesis by (rule fl_pos)
qed

lemma float_add_pos:
  assumes "0 \<le> a" and "0 < fl x"
  shows "0 < float_add a (fl x)"
proof -
  have "pow2 (- 1074) \<le> fl x" using assms(2) by (rule fl_pos_ge)
  moreover have "pow2 (- 1075) < pow2 (- 1074)"
    using pow2_1075 pow2_pos [of "- 1075"] by linarith
  ultimately have "pow2 (- 1075) < a + fl x" using assms(1) by linarith
  then show ?thesis unfolding float_add_def by (rule fl_pos)
qed

subsection \<open>What the functions leave alone\<close>

lemma TOKENS_price_pos: "map_of TOKENS symbol = Some t \<Longrightarrow> 0 < price t"
  by (auto simp: TOKENS_def split: if_splits)

lemma get_token_price_USERS: "USERS (snd (get_token_price w symbol)) = USERS w"
  by (simp add: get_token_price_def Let_def split: option.splits)

lemma get_token_price_no_zero_division:
  "fst (get_token_price w symbol) \<noteq> Inl ZeroDivisionError"
  by (simp add: get_token_price_def Let_def split: option.splits)

lemma portfolio_value_loop_USERS: "USERS (snd (portfolio_value_loop hs acc w)) = USERS w"
proof (induction hs acc w rule: portfolio_value_loop.induct)
  case (1 total_value w)
  then show ?case by simp
next
  case (2 token h rest total_value w)
  then show ?case
    using get_token_price_USERS [of w token]
    by (auto split: prod.splits sum.splits)
qed

lemma portfolio_value_loop_no_zero_division:
  "fst (portfolio_value_loop hs acc w) \<noteq> Inl ZeroDivisionError"
proof (induction hs acc w rule: portfolio_value_loop.induct)
  case (1 total_value w)
  then show ?case by simp
next
  case (2 token h rest total_value w)
  then show ?case
    using get_token_price_no_zero_division [of w token]
    by (auto split: prod.splits sum.splits)
qed

lemma unrealized_pnl_loop_USERS: "USERS (snd (unrealized_pnl_loop hs acc w)) = USERS w"
proof (induction hs acc w rule: unrealized_pnl_loop.induct)
  case (1 total_pnl w)
  then show ?case by simp
next
  case (2 token h rest total_pnl w)
  then show ?case
    using get_token_price_USERS [of w token]
    by (auto simp: Let_def split: prod.splits sum.splits)
qed

lemma unrealized_pnl_loop_no_zero_division:
  "fst (unrealized_pnl_loop hs acc w) \<noteq> Inl ZeroDivisionError"
proof (induction hs acc w rule: unrealized_pnl_loop.induct)
  case (1 total_pnl w)
  then show ?case by simp
next
  case (2 token h rest total_pnl w)
  then show ?case
    using get_token_price_no_zero_division [of w token]
    by (auto simp: Let_def split: prod.splits sum.splits)
qed

lemma get_portfolio_value_USERS: "USERS (snd (get_portfolio_value w user_id)) = USERS w"
  by (simp add: get_portfolio_value_def portfolio_value_loop_USERS split: option.splits)

lemma get_unrealized_pnl_USERS: "USERS (snd (get_unrealized_pnl w user_id)) = USERS w"
  by (simp add: get_unrealized_pnl_def unrealized_pnl_loop_USERS split: option.splits)

lemma get_portfolio_value_no_zero_division:
  "fst (get_portfolio_value w user_id) \<noteq> Inl ZeroDivisionError"
  by (simp add: get_portfolio_value_def portfolio_value_loop_no_zero_division
      split: option.splits)

lemma get_unrealized_pnl_no_zero_division:
  "fst (get_unrealized_pnl w user_id) \<noteq> Inl ZeroDivisionError"
  by (simp add: get_unrealized_pnl_def unrealized_pnl_loop_no_zero_division
      split: option.splits)

lemma pnl_percent_value:
  "pnl_percent total_pnl total_value =
     Inr (if total_value > 0 then total_pnl / total_value * 100 else 0)"
  by (simp add: pnl_percent_def truediv_def)

lemma show_pnl_USERS: "USERS (snd (show_pnl w user_id)) = USERS w"
proof -
  obtain r1 w1 where 1: "get_portfolio_value w user_id = (r1, w1)" by force
  obtain r2 w2 where 2: "get_unrealized_pnl w1 user_id = (r2, w2)" by force
  have "USERS w1 = USERS w" using get_portfolio_value_USERS [of w user_id] 1 by simp
  moreover have "USERS w2 = USERS w1" using get_unrealized_pnl_USERS [of w1 user_id] 2 by simp
  ultimately show ?thesis
    using 1 2 by (simp add: show_pnl_def split: sum.splits)
qed

lemma format_main_menu_USERS:
  "USERS (snd (format_main_menu w user_id)) = USERS (snd (get_user_data w user_id))"
proof -
  obtain ud w0 where 0: "get_user_data w user_id = (ud, w0)" by force
  obtain r1 w1 where 1: "get_portfolio_value w0 user_id = (r1, w1)" by force
  obtain r2 w2 where 2: "get_unrealized_pnl w1 user_id = (r2, w2)" by force
  have "USERS w1 = USERS w0" using get_portfolio_value_USERS [of w0 user_id] 1 by simp
  moreover have "USERS w2 = USERS w1" using get_unrealized_pnl_USERS [of w1 user_id] 2 by simp
  ultimately show ?thesis
    using 0 1 2 by (simp add: format_main_menu_def split: sum.splits option.splits)
qed

lemma format_balance_message_USERS:
  "USERS (snd (format_balance_message w user_id)) = USERS w"
proof -
  obtain r1 w1 where 1: "get_portfolio_value w user_id = (r1, w1)" by force
  obtain r2 w2 where 2: "get_unrealized_pnl w1 user_id = (r2, w2)" by force
  have "USERS w1 = USERS w" using get_portfolio_value_USERS [of w user_id] 1 by simp
  moreover have "USERS w2 = USERS w1" using get_unrealized_pnl_USERS [of w1 user_id] 2 by simp
  ultimately show ?thesis
    using 1 2 by (simp add: format_balance_message_def split: sum.splits option.splits)
qed

lemma view_tokens_loop_USERS: "USERS (snd (view_tokens_loop ts message w)) = USERS w"
proof (induction ts arbitrary: message w)
  case Nil
  show ?case by simp
next
  case (Cons a ts)
  obtain symbol data where a: "a = (symbol, data)" by (cases a)
  obtain r1 w1 where 1: "get_token_price w symbol = (r1, w1)" by force
  have u1: "USERS w1 = USERS w"
    using get_token_price_USERS [of w symbol] 1 by simp
  show ?case
  proof (cases "symbol = ''SUI''")
    case True
    then show ?thesis using a Cons.IH [of message w] by simp
  next
    case False
    show ?thesis
    proof (cases r1)
      case (Inl e)
      then show ?thesis using a False 1 u1 by simp
    next
      case (Inr current_price)
      then show ?thesis
        using a False 1 u1 Cons.IH [of "message @ [(symbol, current_price)]" w1] by simp
    qed
  qed
qed

lemma view_tokens_USERS: "USERS (snd (view_tokens w)) = USERS w"
proof -
  obtain r1 w1 where 1: "view_tokens_loop TOKENS [] w = (r1, w1)" by force
  have "USERS w1 = USERS w"
    using view_tokens_loop_USERS [of TOKENS "[]" w] 1 by simp
  then show ?thesis
    using 1 by (simp add: view_tokens_def split: sum.splits)
qed

lemma show_portfolio_loop_USERS: "USERS (snd (show_portfolio_loop hs message w)) = USERS w"
proof (induction hs arbitrary: message w)
  case Nil
  show ?case by simp
next
  case (Cons a hs)
  obtain token h where a: "a = (token, h)" by (cases a)
  obtain r1 w1 where 1: "get_token_price w token = (r1, w1)" by force
  have u1: "USERS w1 = USERS w"
    using get_token_price_USERS [of w token] 1 by simp
  show ?case
  proof (cases r1)
    case (Inl e)
    then show ?thesis using a 1 u1 by simp
  next
    case (Inr current_price)
    then show ?thesis
      using a 1 u1 Cons.IH [of _ w1] by (simp add: Let_def pnl_percent_value)
  qed
qed

lemma show_portfolio_USERS: "USERS (snd (show_portfolio w user_id)) = USERS w"
proof (cases "USERS w user_id")
  case None
  then show ?thesis by (simp add: show_portfolio_def)
next
  case (Some ud)
  obtain r1 w1 where 1: "format_balance_message w user_id = (r1, w1)" by force
  obtain r2 w2 where 2: "show_portfolio_loop (holdings ud) [] w1 = (r2, w2)" by force
  have "USERS w1 = USERS w" using format_balance_message_USERS [of w user_id] 1 by simp
  moreover have "USERS w2 = USERS w1"
    using show_portfolio_loop_USERS [of "holdings ud" "[]" w1] 2 by simp
  ultimately show ?thesis
    using Some 1 2 by (simp add: show_portfolio_def split: sum.splits)
qed

lemma start_sell_snd: "snd (start_sell w user_id) = w"
  by (simp add: start_sell_def split: option.splits)

lemma get_token_price_draws:
  "sset (draws (snd (get_token_price w symbol))) \<subseteq> sset (draws w)"
  by (auto simp: get_token_price_def Let_def split: option.splits dest: stl_sset)

lemma portfolio_value_loop_draws:
  "sset (draws (snd (portfolio_value_loop hs acc w))) \<subseteq> sset (draws w)"
proof (induction hs acc w rule: portfolio_value_loop.induct)
  case (1 total_value w)
  then show ?case by simp
next
  case (2 token h rest total_value w)
  then show ?case
    using get_token_price_draws [of w token]
    by (fastforce split: prod.splits sum.splits)
qed

lemma unrealized_pnl_loop_draws:
  "sset (draws (snd (unrealized_pnl_loop hs acc w))) \<subseteq> sset (draws w)"
proof (induction hs acc w rule: unrealized_pnl_loop.induct)
  case (1 total_pnl w)
  then show ?case by simp
next
  case (2 token h rest total_pnl w)
  then show ?case
    using get_token_price_draws [of w token]
    by (fastforce simp: Let_def split: prod.splits sum.splits)
qed

lemma get_portfolio_value_draws:
  "sset (draws (snd (get_portfolio_value w user_id))) \<subseteq> sset (draws w)"
  by (simp add: get_portfolio_value_def portfolio_value_loop_draws split: option.splits)

lemma get_unrealized_pnl_draws:
  "sset (draws (snd (get_unrealized_pnl w user_id))) \<subseteq> sset (draws w)"
  by (simp add: get_unrealized_pnl_def unrealized_pnl_loop_draws split: option.splits)

lemma get_user_data_draws: "draws (snd (get_user_data w user_id)) = draws w"
  by (simp add: get_user_data_def Let_def split: option.splits)

lemma show_pnl_draws: "sset (draws (snd (show_pnl w user_id))) \<subseteq> sset (draws w)"
proof -
  obtain r1 w1 where 1: "get_portfolio_value w user_id = (r1, w1)" by force
  obtain r2 w2 where 2: "get_unrealized_pnl w1 user_id = (r2, w2)" by force
  have "sset (draws w1) \<subseteq> sset (draws w)"
    using get_portfolio_value_draws [of w user_id] 1 by simp
  moreover have "sset (draws w2) \<subseteq> sset (draws w1)"
    using get_unrealized_pnl_draws [of w1 user_id] 2 by simp
  ultimately show ?thesis
    using 1 2 by (auto simp: show_pnl_def pnl_percent_value split: sum.splits)
qed

lemma format_main_menu_draws:
  "sset (draws (snd (format_main_menu w user_id))) \<subseteq> sset (draws w)"
proof -
  obtain ud w0 where 0: "get_user_data w user_id = (ud, w0)" by force
  obtain r1 w1 where 1: "get_portfolio_value w0 user_id = (r1, w1)" by force
  obtain r2 w2 where 2: "get_unrealized_pnl w1 user_id = (r2, w2)" by force
  have "draws w0 = draws w"
    using get_user_data_draws [of w user_id] 0 by simp
  moreover have "sset (draws w1) \<subseteq> sset (draws w0)"
    using get_portfolio_value_draws [of w0 user_id] 1 by simp
  moreover have "sset (draws w2) \<subseteq> sset (draws w1)"
    using get_unrealized_pnl_draws [of w1 user_id] 2 by simp
  ultimately show ?thesis
    using 0 1 2
    by (auto simp: format_main_menu_def pnl_percent_value split: sum.splits option.splits)
qed

lemma format_balance_message_draws:
  "sset (draws (snd (format_balance_message w user_id))) \<subseteq> sset (draws w)"
proof -
  obtain r1 w1 where 1: "get_portfolio_value w user_id = (r1, w1)" by force
  obtain r2 w2 where 2: "get_unrealized_pnl w1 user_id = (r2, w2)" by force
  have "sset (draws w1) \<subseteq> sset (draws w)"
    using get_portfolio_value_draws [of w user_id] 1 by simp
  moreover have "sset (draws w2) \<subseteq> sset (draws w1)"
    using get_unrealized_pnl_draws [of w1 user_id] 2 by simp
  ultimately show ?thesis
    using 1 2
    by (auto simp: format_balance_message_def pnl_percent_value
        split: sum.splits option.splits)
qed

lemma view_tokens_loop_draws:
  "sset (draws (snd (view_tokens_loop ts message w))) \<subseteq> sset (draws w)"
proof (induction ts arbitrary: message w)
  case Nil
  show ?case by simp
next
  case (Cons a ts)
  obtain symbol data where a: "a = (symbol, data)" by (cases a)
  obtain r1 w1 where 1: "get_token_price w symbol = (r1, w1)" by force
  have s1: "sset (draws w1) \<subseteq> sset (draws w)"
    using get_token_price_draws [of w symbol] 1 by simp
  show ?case
  proof (cases "symbol = ''SUI''")
    case True
    then show ?thesis using a Cons.IH [of message w] by simp
  next
    case False
    show ?thesis
    proof (cases r1)
      case (Inl e)
      then show ?thesis using a False 1 s1 by simp
    next
      case (Inr current_price)
      have "sset (draws (snd (view_tokens_loop ts (message @ [(symbol, current_price)]) w1)))
              \<subseteq> sset (draws w1)"
        by (rule Cons.IH)
      then have "sset (draws (snd (view_tokens_loop ts (message @ [(symbol, current_price)]) w1)))
              \<subseteq> sset (draws w)"
        using s1 by (rule subset_trans)
      then show ?thesis
        using a False 1 Inr by simp
    qed
  qed
qed

lemma view_tokens_draws: "sset (draws (snd (view_tokens w))) \<subseteq> sset (draws w)"
proof -
  obtain r1 w1 where 1: "view_tokens_loop TOKENS [] w = (r1, w1)" by force
  have "sset (draws w1) \<subseteq> sset (draws w)"
    using view_tokens_loop_draws [of TOKENS "[]" w] 1 by simp
  then show ?thesis
    using 1 by (simp add: view_tokens_def split: sum.splits)
qed

lemma show_portfolio_loop_draws:
  "sset (draws (snd (show_portfolio_loop hs message w))) \<subseteq> sset (draws w)"
proof (induction hs arbitrary: message w)
  case Nil
  show ?case by simp
next
  case (Cons a hs)
  obtain token h where a: "a = (token, h)" by (cases a)
  obtain r1 w1 where 1: "get_token_price w token = (r1, w1)" by force
  have s1: "sset (draws w1) \<subseteq> sset (draws w)"
    using get_token_price_draws [of w token] 1 by simp
  show ?case
  proof (cases r1)
    case (Inl e)
    then show ?thesis using a 1 s1 by simp
  next
    case (Inr current_price)
    have "\<And>m. sset (draws (snd (show_portfolio_loop hs m w1))) \<subseteq> sset (draws w1)"
      by (rule Cons.IH)
    then have "\<And>m. sset (draws (snd (show_portfolio_loop hs m w1))) \<subseteq> sset (draws w)"
      using s1 by (rule subset_trans)
    then show ?thesis
      using a 1 Inr by (simp add: Let_def pnl_percent_value)
  qed
qed

lemma show_portfolio_draws:
  "sset (draws (snd (show_portfolio w user_id))) \<subseteq> sset (draws w)"
proof (cases "USERS w user_id")
  case None
  then show ?thesis by (simp add: show_portfolio_def)
next
  case (Some ud)
  obtain r1 w1 where 1: "format_balance_message w user_id = (r1, w1)" by force
  obtain r2 w2 where 2: "show_portfolio_loop (holdings ud) [] w1 = (r2, w2)" by force
  have "sset (draws w1) \<subseteq> sset (draws w)"
    using format_balance_message_draws [of w user_id] 1 by simp
  moreover have "sset (draws w2) \<subseteq> sset (draws w1)"
    using show_portfolio_loop_draws [of "holdings ud" "[]" w1] 2 by simp
  ultimately show ?thesis
    using Some 1 2 by (auto simp: show_portfolio_def split: sum.splits)
qed

lemma process_buy_amount_draws:
  "sset (draws (snd (process_buy_amount w user_id token text))) \<subseteq> sset (draws w)"
proof -
  obtain r1 w1 where 1: "get_token_price w token = (r1, w1)" by force
  have "sset (draws w1) \<subseteq> sset (draws w)"
    using get_token_price_draws [of w token] 1 by simp
  then show ?thesis
    using 1
    by (auto simp: process_buy_amount_def Let_def split: option.splits sum.splits)
qed

lemma process_sell_quantity_draws:
  "sset (draws (snd (process_sell_quantity w user_id token text))) \<subseteq> sset (draws w)"
proof -
  obtain r1 w1 where 1: "get_token_price w token = (r1, w1)" by force
  have "sset (draws w1) \<subseteq> sset (draws w)"
    using get_token_price_draws [of w token] 1 by simp
  then show ?thesis
    using 1
    by (auto simp: process_sell_quantity_def Let_def split: option.splits sum.splits)
qed

lemma handle_draws: "sset (draws (snd (handle w ev))) \<subseteq> sset (draws w)"
proof (cases ev)
  case (Start user_id)
  obtain ud w0 where 0: "get_user_data w user_id = (ud, w0)" by force
  have "draws w0 = draws w"
    using get_user_data_draws [of w user_id] 0 by simp
  then show ?thesis
    using Start 0 format_main_menu_draws [of w0 user_id]
    by (auto simp: start_def split: prod.splits sum.splits)
next
  case (Back_to_main user_id)
  then show ?thesis
    using format_main_menu_draws [of w user_id]
    by (auto simp: back_to_main_def split: prod.splits sum.splits)
next
  case (Show_balance user_id)
  then show ?thesis
    using get_user_data_draws [of w user_id]
    by (auto simp: show_balance_def split: prod.splits option.splits)
qed (simp_all add: process_buy_amount_draws process_sell_quantity_draws show_pnl_draws
      reset_portfolio_def view_tokens_draws show_portfolio_draws start_sell_snd)

lemma handle_draws_in_range: "draws_in_range w \<Longrightarrow> draws_in_range (snd (handle w ev))"
  using handle_draws [of w ev] by (auto simp: draws_in_range_def)

subsection \<open>The price oracle\<close>

lemma get_token_price_accepted:
  assumes "buy_token_accepted symbol"
  shows "\<exists>t. map_of TOKENS symbol = Some t \<and> 0 < price t \<and>
           get_token_price w symbol =
             (Inr (price t * (1 + shd (draws w))), w\<lparr>draws := stl (draws w)\<rparr>)"
proof -
  from assms obtain t where t: "map_of TOKENS symbol = Some t"
    by (auto simp: buy_token_accepted_def)
  then have "0 < price t" by (rule TOKENS_price_pos)
  with t show ?thesis by (simp add: get_token_price_def)
qed

text \<open>
  Claim C7. For a symbol that \<^verbatim>\<open>process_buy_token\<close> accepts (a key of \<^verbatim>\<open>TOKENS\<close> other
  than SUI) and a draw \<open>f\<close> in \<open>[-0.05, 0.05]\<close>, the table has a positive base price \<open>b\<close>
  for it, the oracle returns \<open>b * (1 + f)\<close> and consumes the draw, and the price lies in
  \<open>[0.95 * b, 1.05 * b]\<close> and is positive.
\<close>

theorem get_token_price_tradable:
  assumes "buy_token_accepted symbol"
    and "shd (draws w) = f"
    and "- 0.05 \<le> f" and "f \<le> 0.05"
  shows "\<exists>t. map_of TOKENS symbol = Some t \<and> 0 < price t \<and>
           get_token_price w symbol = (Inr (price t * (1 + f)), w\<lparr>draws := stl (draws w)\<rparr>) \<and>
           0.95 * price t \<le> price t * (1 + f) \<and> price t * (1 + f) \<le> 1.05 * price t \<and>
           0 < price t * (1 + f)"
proof -
  from assms(1) obtain t where t: "map_of TOKENS symbol = Some t"
    by (auto simp: buy_token_accepted_def)
  then have pos: "0 < price t" by (rule TOKENS_price_pos)
  have eq: "get_token_price w symbol = (Inr (price t * (1 + f)), w\<lparr>draws := stl (draws w)\<rparr>)"
    using t assms(2) by (simp add: get_token_price_def)
  have "price t * 0.95 \<le> price t * (1 + f)"
    using pos assms(3) by (intro mult_left_mono) auto
  then have lo: "0.95 * price t \<le> price t * (1 + f)"
    by (simp add: mult.commute)
  have "price t * (1 + f) \<le> price t * 1.05"
    using pos assms(4) by (intro mult_left_mono) auto
  then have hi: "price t * (1 + f) \<le> 1.05 * price t"
    by (simp add: mult.commute)
  have "0 < 1 + f" using assms(3) by simp
  then have "0 < price t * (1 + f)" using pos by simp
  with t pos eq lo hi show ?thesis by blast
qed

theorem get_token_price_tradable_witness:
  "get_token_price (quiet_world (0.05 ## sconst 0)) ''ROCKET'' =
     (Inr 1.3125, quiet_world (sconst 0))"
proof -
  have h1: "buy_token_accepted ''ROCKET''"
    by (simp add: buy_token_accepted_def TOKENS_def)
  have h2: "shd (draws (quiet_world (0.05 ## sconst 0))) = 0.05"
    by (simp add: quiet_world_def)
  have h3: "- 0.05 \<le> (0.05::real)" and h4: "(0.05::real) \<le> 0.05" by simp_all
  show ?thesis
    using get_token_price_tradable [OF h1 h2 h3 h4]
    by (simp add: TOKENS_def quiet_world_def)
qed

text \<open>
  The oracle has no case for the settlement token: with the draw 0.05 it prices SUI at
  1.05, not at its reference price 1.0.
\<close>

theorem SUI_price_fluctuates:
  "fst (get_token_price (quiet_world (sconst 0.05)) ''SUI'') = Inr 1.05 \<and>
   fst (get_token_price (quiet_world (sconst 0.05)) ''SUI'') \<noteq> Inr 1.0"
  by (simp add: get_token_price_def TOKENS_def quiet_world_def)

text \<open>
  Claim C6, as the code has it. For SUI the oracle returns \<open>1.0 * (1 + f)\<close> for the draw
  \<open>f\<close>, as for every other key of \<^verbatim>\<open>TOKENS\<close>; that is the reference price 1.0 exactly
  when \<open>f = 0\<close>, and a value in \<open>[0.95, 1.05]\<close> when \<open>f\<close> is in \<open>[-0.05, 0.05]\<close>.
\<close>

theorem get_token_price_SUI:
  "fst (get_token_price w ''SUI'') = Inr (1.0 * (1 + shd (draws w))) \<and>
   (fst (get_token_price w ''SUI'') = Inr 1.0 \<longleftrightarrow> shd (draws w) = 0) \<and>
   (- 0.05 \<le> shd (draws w) \<and> shd (draws w) \<le> 0.05 \<longrightarrow>
      (\<exists>p. fst (get_token_price w ''SUI'') = Inr p \<and> 0.95 \<le> p \<and> p \<le> 1.05))"
  by (simp add: get_token_price_def TOKENS_def)

theorem get_token_price_SUI_witness:
  "- 0.05 \<le> shd (draws (quiet_world (sconst (- 0.05)))) \<and>
   shd (draws (quiet_world (sconst (- 0.05)))) \<le> 0.05 \<and>
   fst (get_token_price (quiet_world (sconst (- 0.05))) ''SUI'') = Inr 0.95"
  using get_token_price_SUI [of "quiet_world (sconst (- 0.05))"]
  by (simp add: quiet_world_def)

subsection \<open>Buying\<close>

text \<open>
  The doubles of one buy: user 7 buys MOON for 100 SUI at the draw \<open>- 1 / 32\<close>, that is
  at the price \<open>31 / 64\<close>, once as a newcomer and once holding 200 MOON at 0.5.
\<close>

lemma fl_6400_31: "fl (6400 / 31) = 3631935183363303 / 2 ^ 44"
  by (rule fl_at [where k = 7 and n = 7263870366726606])
    (simp_all add: rne_def Let_def pow2_def powr_neg_numeral)

lemma fl_qp: "fl (3631935183363303 / 2 ^ 44 * (31 / 64)) = 100"
  by (rule fl_at [where k = 6 and n = 7036874417766400])
    (simp_all add: rne_def Let_def pow2_def powr_neg_numeral)

lemma fl_avg: "fl (100 / (3631935183363303 / 2 ^ 44)) = 8725724278030337 / 2 ^ 54"
  by (rule fl_at [where k = "- 2" and n = 8725724278030337])
    (simp_all add: rne_def Let_def pow2_def powr_neg_numeral)

lemma fl_900: "fl 900 = 900"
  using fl_fixed [of 900 900 0] by (simp add: pow2_def)

lemma fl_100: "fl 100 = 100"
  using fl_fixed [of 100 100 0] by (simp add: pow2_def)

lemma fl_200: "fl 200 = 200"
  using fl_fixed [of 200 200 0] by (simp add: pow2_def)

lemma fl_800: "fl 800 = 800"
  using fl_fixed [of 800 800 0] by (simp add: pow2_def)

lemma fl_new_quantity:
  "fl (200 + 3631935183363303 / 2 ^ 44) = 7150372392246503 / 2 ^ 44"
  by (rule fl_at [where k = 8 and n = 7150372392246503])
    (simp_all add: rne_def Let_def pow2_def powr_neg_numeral)

lemma fl_new_avg:
  "fl (200 / (7150372392246503 / 2 ^ 44)) = 277007119937471 / 2 ^ 49"
  by (rule fl_at [where k = "- 2" and n = 8864227837999072])
    (simp_all add: rne_def Let_def pow2_def powr_neg_numeral)

text \<open>
  The average price of a new holding is computed like any other, from the placeholder
  \<^verbatim>\<open>{"quantity": 0, "avg_price": 0}\<close>: the rounded product of quantity and price, divided
  by the quantity and rounded again. For the newcomer's buy this is
  \<open>8725724278030337 / 2 ^ 54\<close> (0.48437500000000006), not the price 0.484375. At this
  draw the oracle's sum \<open>1 - 1 / 32\<close> and its product with 0.5 are doubles, so 0.484375 is
  the price the code computes, too.
\<close>

theorem fresh_average_is_not_price:
  "fst (get_token_price (newcomer (sconst (- 0.03125))) ''MOON'') = Inr 0.484375 \<and>
   holding_of (snd (process_buy_amount (newcomer (sconst (- 0.03125))) 7 ''MOON'' (Some 100)))
     7 ''MOON'' =
     Some \<lparr>quantity = 3631935183363303 / 2 ^ 44, avg_price = 8725724278030337 / 2 ^ 54\<rparr> \<and>
   (8725724278030337 / 2 ^ 54 :: real) \<noteq> 0.484375"
proof -
  have gp: "get_token_price (newcomer (sconst (- 0.03125))) ''MOON'' =
              (Inr (31 / 64), newcomer (sconst (- 0.03125)))"
    by (simp add: get_token_price_def TOKENS_def newcomer_def)
  have q: "float_truediv 100 (31 / 64) = Inr (3631935183363303 / 2 ^ 44)"
    using fl_6400_31 by (simp add: float_truediv_def)
  have nq: "float_add 0 (3631935183363303 / 2 ^ 44) = 3631935183363303 / 2 ^ 44"
    using float_add_0 [of "6400 / 31"] by (simp only: fl_6400_31)
  have qp: "float_mul (3631935183363303 / 2 ^ 44) (31 / 64) = 100"
    using fl_qp by (simp add: float_mul_def)
  have s: "float_add (float_mul 0 0) 100 = 100"
    using fl_fixed [of 100 100 0] by (simp add: float_mul_0 float_add_def pow2_def)
  have avg: "float_truediv 100 (3631935183363303 / 2 ^ 44) = Inr (8725724278030337 / 2 ^ 54)"
    using fl_avg by (simp add: float_truediv_def)
  have bal: "float_sub 1000 100 = 900"
    using fl_900 by (simp add: float_sub_def)
  have u: "USERS (newcomer (sconst (- 0.03125))) 7 =
             Some \<lparr>holdings = [], sui_balance = 1000, referral_bonus = Some REFERRAL_BONUS\<rparr>"
    by (simp add: newcomer_def)
  have "holding_of (snd (process_buy_amount (newcomer (sconst (- 0.03125))) 7 ''MOON'' (Some 100)))
     7 ''MOON'' =
     Some \<lparr>quantity = 3631935183363303 / 2 ^ 44, avg_price = 8725724278030337 / 2 ^ 54\<rparr>"
    unfolding process_buy_amount_def holding_of_def
    by (simp only: gp u q nq qp s avg bal Let_def option.case prod.case sum.case
          user_data.simps holding.simps if_False list.simps map_of.simps)
       (simp add: newcomer_def)
  then show ?thesis using gp by simp
qed

text \<open>
  Claim C1, as the code has it. The user has an account, the symbol is one
  \<^verbatim>\<open>process_buy_token\<close> accepts, the oracle returns the price \<open>p > 0\<close>,
  \<open>0 < amount \<le> sui_balance\<close>, and the quantity bought is not rounded to zero. A holding
  the user already has is taken with a non-negative quantity, as the data model has it.
  Every operation is the double one. The trade is executed for \<open>amount / p\<close> units at
  \<open>p\<close>; a symbol not held before is held with that quantity and the average price
  \<open>(quantity * p) / quantity\<close>, which rounds twice and need not be \<open>p\<close>; a symbol held
  before has its quantity increased by the quantity bought and the quantity-weighted
  average as its average price; the balance is the old one minus \<open>amount\<close>; the other
  holdings, the bonus field and the other users are as before.
\<close>

theorem process_buy_amount_executes:
  assumes "USERS w user_id = Some ud"
    and "buy_token_accepted token"
    and "fst (get_token_price w token) = Inr p"
    and "0 < p"
    and "0 < amount" and "amount \<le> sui_balance ud"
    and "0 < fl (amount / p)"
    and "\<forall>h. map_of (holdings ud) token = Some h \<longrightarrow> 0 \<le> quantity h"
  shows "fst (process_buy_amount w user_id token (Some amount)) =
           Inr (Bought (fl (amount / p)) token amount p, SELECTING_ACTION) \<and>
         (\<exists>ud'. USERS (snd (process_buy_amount w user_id token (Some amount))) user_id = Some ud' \<and>
            map_of (holdings ud') token =
              Some (case map_of (holdings ud) token of
                      None \<Rightarrow>
                        \<lparr>quantity = fl (amount / p),
                         avg_price = fl (fl (fl (amount / p) * p) / fl (amount / p))\<rparr>
                    | Some h \<Rightarrow>
                        \<lparr>quantity = fl (quantity h + fl (amount / p)),
                         avg_price =
                           fl (fl (fl (quantity h * avg_price h) + fl (fl (amount / p) * p)) /
                               fl (quantity h + fl (amount / p)))\<rparr>) \<and>
            sui_balance ud' = fl (sui_balance ud - amount) \<and>
            (\<forall>t. t \<noteq> token \<longrightarrow> map_of (holdings ud') t = map_of (holdings ud) t) \<and>
            referral_bonus ud' = referral_bonus ud) \<and>
         (\<forall>u. u \<noteq> user_id \<longrightarrow>
            USERS (snd (process_buy_amount w user_id token (Some amount))) u = USERS w u)"
proof -
  obtain w1 where w1: "get_token_price w token = (Inr p, w1)"
    using assms(3) by (cases "get_token_price w token") simp
  have U1: "USERS w1 = USERS w"
    using get_token_price_USERS [of w token] w1 by simp
  define q where "q = fl (amount / p)"
  have qd: "float_truediv amount p = Inr q"
    using assms(4) by (simp add: float_truediv_def q_def)
  have qpos: "0 < q" using assms(7) by (simp add: q_def)
  show ?thesis
  proof (cases "map_of (holdings ud) token")
    case None
    have nq: "float_add 0 q = q" unfolding q_def by (rule float_add_0)
    have num: "float_add (float_mul 0 0) (float_mul q p) = fl (q * p)"
      by (simp add: float_mul_def float_add_def fl_0 fl_idem)
    have avg: "float_truediv (fl (q * p)) q = Inr (fl (fl (q * p) / q))"
      using qpos by (simp add: float_truediv_def)
    show ?thesis
      using None assms(1,5,6) w1 U1 qd nq num avg
      by (simp add: process_buy_amount_def Let_def AList.update_conv' float_sub_def
          q_def [symmetric])
  next
    case (Some h)
    with assms(8) have h0: "0 \<le> quantity h" by simp
    have "0 < float_add (quantity h) q"
      unfolding q_def using h0 assms(7) by (rule float_add_pos)
    then have nz: "fl (quantity h + q) \<noteq> 0" by (simp add: float_add_def)
    show ?thesis
      using Some assms(1,5,6) w1 U1 qd nz
      by (simp add: process_buy_amount_def Let_def AList.update_conv' float_sub_def
          float_add_def float_mul_def float_truediv_def q_def [symmetric])
  qed
qed

theorem process_buy_amount_executes_witness:
  "fst (process_buy_amount (moon_holder (sconst (- 0.03125))) 7 ''MOON'' (Some 100)) =
     Inr (Bought (3631935183363303 / 2 ^ 44) ''MOON'' 100 0.484375, SELECTING_ACTION) \<and>
   (\<exists>ud'. USERS (snd (process_buy_amount (moon_holder (sconst (- 0.03125))) 7 ''MOON''
                          (Some 100))) 7 = Some ud' \<and>
      map_of (holdings ud') ''MOON'' =
        Some \<lparr>quantity = 7150372392246503 / 2 ^ 44, avg_price = 277007119937471 / 2 ^ 49\<rparr> \<and>
      sui_balance ud' = 800) \<and>
   fst (process_buy_amount (newcomer (sconst (- 0.03125))) 7 ''MOON'' (Some 100)) =
     Inr (Bought (3631935183363303 / 2 ^ 44) ''MOON'' 100 0.484375, SELECTING_ACTION) \<and>
   (\<exists>ud'. USERS (snd (process_buy_amount (newcomer (sconst (- 0.03125))) 7 ''MOON''
                          (Some 100))) 7 = Some ud' \<and>
      map_of (holdings ud') ''MOON'' =
        Some \<lparr>quantity = 3631935183363303 / 2 ^ 44, avg_price = 8725724278030337 / 2 ^ 54\<rparr> \<and>
      sui_balance ud' = 900)"
proof -
  let ?ud = "\<lparr>holdings = [(''MOON'', \<lparr>quantity = 200, avg_price = 0.5\<rparr>)],
              sui_balance = 900, referral_bonus = Some REFERRAL_BONUS\<rparr>"
  let ?nu = "\<lparr>holdings = [], sui_balance = 1000, referral_bonus = Some REFERRAL_BONUS\<rparr>"
  have q: "fl (100 / (31 / 64)) = 3631935183363303 / 2 ^ 44"
    using fl_6400_31 by simp
  have h1: "USERS (moon_holder (sconst (- 0.03125))) 7 = Some ?ud"
    by (simp add: moon_holder_def)
  have k1: "USERS (newcomer (sconst (- 0.03125))) 7 = Some ?nu"
    by (simp add: newcomer_def)
  have h2: "buy_token_accepted ''MOON''"
    by (simp add: buy_token_accepted_def TOKENS_def)
  have h3: "fst (get_token_price (moon_holder (sconst (- 0.03125))) ''MOON'') = Inr (31 / 64)"
    by (simp add: get_token_price_def TOKENS_def moon_holder_def)
  have k3: "fst (get_token_price (newcomer (sconst (- 0.03125))) ''MOON'') = Inr (31 / 64)"
    by (simp add: get_token_price_def TOKENS_def newcomer_def)
  have h4: "(0::real) < 31 / 64" and h5: "(0::real) < 100" by simp_all
  have h6: "100 \<le> sui_balance ?ud" and k6: "100 \<le> sui_balance ?nu" by simp_all
  have h7: "0 < fl (100 / (31 / 64))" unfolding q by simp
  have h8: "\<forall>h. map_of (holdings ?ud) ''MOON'' = Some h \<longrightarrow> 0 \<le> quantity h" by simp
  have k8: "\<forall>h. map_of (holdings ?nu) ''MOON'' = Some h \<longrightarrow> 0 \<le> quantity h" by simp
  have n1: "fl (6400 / 31) = 3631935183363303 / 17592186044416"
    using fl_6400_31 by simp
  have n2: "fl (112589990684262393 / 1125899906842624) = 100"
    using fl_qp by simp
  have n3: "fl (7150372392246503 / 17592186044416) = 7150372392246503 / 17592186044416"
    using fl_new_quantity by simp
  have n4: "fl (3518437208883200 / 7150372392246503) = 277007119937471 / 562949953421312"
    using fl_new_avg by simp
  have n5: "fl (1759218604441600 / 3631935183363303) = 8725724278030337 / 18014398509481984"
    using fl_avg by simp
  have held: "fst (process_buy_amount (moon_holder (sconst (- 0.03125))) 7 ''MOON'' (Some 100)) =
       Inr (Bought (3631935183363303 / 2 ^ 44) ''MOON'' 100 0.484375, SELECTING_ACTION) \<and>
     (\<exists>ud'. USERS (snd (process_buy_amount (moon_holder (sconst (- 0.03125))) 7 ''MOON''
                            (Some 100))) 7 = Some ud' \<and>
        map_of (holdings ud') ''MOON'' =
          Some \<lparr>quantity = 7150372392246503 / 2 ^ 44, avg_price = 277007119937471 / 2 ^ 49\<rparr> \<and>
        sui_balance ud' = 800)"
    using process_buy_amount_executes [OF h1 h2 h3 h4 h5 h6 h7 h8]
    by (auto simp: n1 n2 n3 n4 fl_100 fl_200 fl_800)
  have fresh: "fst (process_buy_amount (newcomer (sconst (- 0.03125))) 7 ''MOON'' (Some 100)) =
       Inr (Bought (3631935183363303 / 2 ^ 44) ''MOON'' 100 0.484375, SELECTING_ACTION) \<and>
     (\<exists>ud'. USERS (snd (process_buy_amount (newcomer (sconst (- 0.03125))) 7 ''MOON''
                            (Some 100))) 7 = Some ud' \<and>
        map_of (holdings ud') ''MOON'' =
          Some \<lparr>quantity = 3631935183363303 / 2 ^ 44, avg_price = 8725724278030337 / 2 ^ 54\<rparr> \<and>
        sui_balance ud' = 900)"
    using process_buy_amount_executes [OF k1 h2 k3 h4 h5 k6 h7 k8]
    by (auto simp: n1 n2 n5 fl_900)
  from held fresh show ?thesis by simp
qed

text \<open>
  Claim C3. For an account whose balance is not negative, an amount above the balance is
  answered with "Insufficient SUI balance", the conversation stays in
  \<open>ENTERING_AMOUNT\<close>, and the world (every account, and the generator) is unchanged.
\<close>

theorem buy_more_than_balance:
  assumes "USERS w user_id = Some ud"
    and "0 \<le> sui_balance ud"
    and "sui_balance ud < amount"
  shows "process_buy_amount w user_id token (Some amount) =
           (Inr (Insufficient_SUI_balance, ENTERING_AMOUNT), w)"
  using assms by (simp add: process_buy_amount_def)

theorem buy_more_than_balance_witness:
  "process_buy_amount (moon_holder (sconst 0)) 7 ''STAR'' (Some 900.5) =
     (Inr (Insufficient_SUI_balance, ENTERING_AMOUNT), moon_holder (sconst 0))"
proof -
  let ?ud = "\<lparr>holdings = [(''MOON'', \<lparr>quantity = 200, avg_price = 0.5\<rparr>)],
              sui_balance = 900, referral_bonus = Some REFERRAL_BONUS\<rparr>"
  have h1: "USERS (moon_holder (sconst 0)) 7 = Some ?ud"
    by (simp add: moon_holder_def)
  have h2: "0 \<le> sui_balance ?ud" by simp
  have h3: "sui_balance ?ud < 900.5" by simp
  show ?thesis
    by (rule buy_more_than_balance [OF h1 h2 h3])
qed

subsection \<open>Selling\<close>



text \<open>
  Claim C4. The quantity held is that of the holding, or 0 when the symbol is not held,
  and a holding has a non-negative quantity, as the data model has it. A sell quantity
  above the quantity held is answered with "Invalid quantity. Please enter a valid
  amount:", the conversation stays in \<open>ENTERING_SELL_QUANTITY\<close>, and the world is
  unchanged.
\<close>

theorem sell_more_than_held:
  assumes "USERS w user_id = Some ud"
    and "(case map_of (holdings ud) token of None \<Rightarrow> 0 | Some h \<Rightarrow> quantity h) < qty"
    and "\<forall>h. map_of (holdings ud) token = Some h \<longrightarrow> 0 \<le> quantity h"
  shows "process_sell_quantity w user_id token (Some qty) =
           (Inr (Invalid_quantity_amount, ENTERING_SELL_QUANTITY), w)"
  using assms by (auto simp add: process_sell_quantity_def split: option.splits)

theorem sell_more_than_held_witness:
  "process_sell_quantity (moon_holder (sconst 0)) 7 ''MOON'' (Some 200.5) =
     (Inr (Invalid_quantity_amount, ENTERING_SELL_QUANTITY), moon_holder (sconst 0)) \<and>
   process_sell_quantity (moon_holder (sconst 0)) 7 ''STAR'' (Some 1) =
     (Inr (Invalid_quantity_amount, ENTERING_SELL_QUANTITY), moon_holder (sconst 0))"
proof -
  let ?ud = "\<lparr>holdings = [(''MOON'', \<lparr>quantity = 200, avg_price = 0.5\<rparr>)],
              sui_balance = 900, referral_bonus = Some REFERRAL_BONUS\<rparr>"
  have h1: "USERS (moon_holder (sconst 0)) 7 = Some ?ud"
    by (simp add: moon_holder_def)
  have h2: "(case map_of (holdings ?ud) ''MOON'' of None \<Rightarrow> 0 | Some h \<Rightarrow> quantity h) < 200.5"
    by simp
  have h3: "\<forall>h. map_of (holdings ?ud) ''MOON'' = Some h \<longrightarrow> 0 \<le> quantity h"
    by simp
  have h4: "(case map_of (holdings ?ud) ''STAR'' of None \<Rightarrow> 0 | Some h \<Rightarrow> quantity h) < 1"
    by simp
  have h5: "\<forall>h. map_of (holdings ?ud) ''STAR'' = Some h \<longrightarrow> 0 \<le> quantity h"
    by simp
  show ?thesis
    using sell_more_than_held [OF h1 h2 h3] sell_more_than_held [OF h1 h4 h5] by simp
qed

subsection \<open>Reset\<close>

text \<open>
  Claim C5. In every world \<^verbatim>\<open>reset_portfolio\<close> returns normally; afterwards the user's
  account has the balance 1000 and no holdings; resetting again changes nothing.
\<close>

theorem reset_portfolio_restores:
  "fst (reset_portfolio w user_id) = Inr (Portfolio_reset, SELECTING_ACTION) \<and>
   (\<exists>ud. USERS (snd (reset_portfolio w user_id)) user_id = Some ud \<and>
      sui_balance ud = 1000 \<and> holdings ud = []) \<and>
   snd (reset_portfolio (snd (reset_portfolio w user_id)) user_id) =
     snd (reset_portfolio w user_id)"
  by (simp add: reset_portfolio_def)

subsection \<open>Valuation\<close>

lemma format_balance_message_no_zero_division:
  "fst (format_balance_message w user_id) \<noteq> Inl ZeroDivisionError"
proof -
  obtain r1 v1 where 1: "get_portfolio_value w user_id = (r1, v1)" by force
  obtain r2 v2 where 2: "get_unrealized_pnl v1 user_id = (r2, v2)" by force
  have "r1 \<noteq> Inl ZeroDivisionError"
    using get_portfolio_value_no_zero_division [of w user_id] 1 by simp
  moreover have "r2 \<noteq> Inl ZeroDivisionError"
    using get_unrealized_pnl_no_zero_division [of v1 user_id] 2 by simp
  ultimately show ?thesis
    using 1 2
    by (auto simp: format_balance_message_def pnl_percent_value
        split: sum.splits option.splits)
qed

lemma show_portfolio_loop_no_zero_division:
  "fst (show_portfolio_loop hs message w) \<noteq> Inl ZeroDivisionError"
proof (induction hs arbitrary: message w)
  case Nil
  show ?case by simp
next
  case (Cons a hs)
  obtain token h where a: "a = (token, h)" by (cases a)
  obtain r1 w1 where 1: "get_token_price w token = (r1, w1)" by force
  have n1: "r1 \<noteq> Inl ZeroDivisionError"
    using get_token_price_no_zero_division [of w token] 1 by simp
  show ?case
  proof (cases r1)
    case (Inl e)
    then show ?thesis using a 1 n1 by simp
  next
    case (Inr current_price)
    then show ?thesis
      using a 1 Cons.IH [of _ w1] by (simp add: Let_def pnl_percent_value)
  qed
qed

lemma show_portfolio_no_zero_division:
  "fst (show_portfolio w user_id) \<noteq> Inl ZeroDivisionError"
proof (cases "USERS w user_id")
  case None
  then show ?thesis by (simp add: show_portfolio_def)
next
  case (Some ud)
  obtain r1 w1 where 1: "format_balance_message w user_id = (r1, w1)" by force
  obtain r2 w2 where 2: "show_portfolio_loop (holdings ud) [] w1 = (r2, w2)" by force
  have "r1 \<noteq> Inl ZeroDivisionError"
    using format_balance_message_no_zero_division [of w user_id] 1 by simp
  moreover have "r2 \<noteq> Inl ZeroDivisionError"
    using show_portfolio_loop_no_zero_division [of "holdings ud" "[]" w1] 2 by simp
  ultimately show ?thesis
    using Some 1 2 by (auto simp: show_portfolio_def split: sum.splits)
qed

text \<open>
  Claim C8. The conditional expression yields \<open>total_pnl / total_value * 100\<close> when
  \<open>total_value > 0\<close> and 0 otherwise, and never raises; none of the four functions that
  contain it can end in \<^verbatim>\<open>ZeroDivisionError\<close>; and when the two valuation passes return
  \<open>total_value\<close> and \<open>total_pnl\<close>, the messages of \<^verbatim>\<open>show_pnl\<close> and
  \<^verbatim>\<open>format_balance_message\<close> carry that percentage.
\<close>

theorem pnl_percent_no_division_error:
  "pnl_percent total_pnl total_value =
     Inr (if total_value > 0 then total_pnl / total_value * 100 else 0) \<and>
   fst (show_pnl w user_id) \<noteq> Inl ZeroDivisionError \<and>
   fst (format_balance_message w user_id) \<noteq> Inl ZeroDivisionError \<and>
   fst (format_main_menu w user_id) \<noteq> Inl ZeroDivisionError \<and>
   fst (show_portfolio w user_id) \<noteq> Inl ZeroDivisionError \<and>
   (get_portfolio_value w user_id = (Inr total_value, w1) \<and>
    get_unrealized_pnl w1 user_id = (Inr total_pnl, w2) \<longrightarrow>
      show_pnl w user_id =
        (Inr (Portfolio_PnL total_pnl
                (if total_value > 0 then total_pnl / total_value * 100 else 0),
              SELECTING_ACTION), w2) \<and>
      (\<forall>ud. USERS w user_id = Some ud \<longrightarrow>
         format_balance_message w user_id =
           (Inr (Balance_message (sui_balance ud) total_value total_pnl
                   (if total_value > 0 then total_pnl / total_value * 100 else 0)), w2)))"
proof -
  have pv: "\<And>w. fst (get_portfolio_value w user_id) \<noteq> Inl ZeroDivisionError"
    by (rule get_portfolio_value_no_zero_division)
  have up: "\<And>w. fst (get_unrealized_pnl w user_id) \<noteq> Inl ZeroDivisionError"
    by (rule get_unrealized_pnl_no_zero_division)
  have a: "fst (show_pnl w user_id) \<noteq> Inl ZeroDivisionError"
  proof -
    obtain r1 v1 where 1: "get_portfolio_value w user_id = (r1, v1)" by force
    obtain r2 v2 where 2: "get_unrealized_pnl v1 user_id = (r2, v2)" by force
    have "r1 \<noteq> Inl ZeroDivisionError" using pv [of w] 1 by simp
    moreover have "r2 \<noteq> Inl ZeroDivisionError" using up [of v1] 2 by simp
    ultimately show ?thesis
      using 1 2 by (auto simp: show_pnl_def pnl_percent_value split: sum.splits)
  qed
  have b: "fst (format_balance_message w user_id) \<noteq> Inl ZeroDivisionError"
    by (rule format_balance_message_no_zero_division)
  have p: "fst (show_portfolio w user_id) \<noteq> Inl ZeroDivisionError"
    by (rule show_portfolio_no_zero_division)
  have c: "fst (format_main_menu w user_id) \<noteq> Inl ZeroDivisionError"
  proof -
    obtain ud v0 where 0: "get_user_data w user_id = (ud, v0)" by force
    obtain r1 v1 where 1: "get_portfolio_value v0 user_id = (r1, v1)" by force
    obtain r2 v2 where 2: "get_unrealized_pnl v1 user_id = (r2, v2)" by force
    have "r1 \<noteq> Inl ZeroDivisionError" using pv [of v0] 1 by simp
    moreover have "r2 \<noteq> Inl ZeroDivisionError" using up [of v1] 2 by simp
    ultimately show ?thesis
      using 0 1 2
      by (auto simp: format_main_menu_def pnl_percent_value
          split: sum.splits option.splits)
  qed
  have d: "get_portfolio_value w user_id = (Inr total_value, w1) \<and>
    get_unrealized_pnl w1 user_id = (Inr total_pnl, w2) \<longrightarrow>
      show_pnl w user_id =
        (Inr (Portfolio_PnL total_pnl
                (if total_value > 0 then total_pnl / total_value * 100 else 0),
              SELECTING_ACTION), w2) \<and>
      (\<forall>ud. USERS w user_id = Some ud \<longrightarrow>
         format_balance_message w user_id =
           (Inr (Balance_message (sui_balance ud) total_value total_pnl
                   (if total_value > 0 then total_pnl / total_value * 100 else 0)), w2))"
    by (simp add: show_pnl_def format_balance_message_def pnl_percent_value)
  from pnl_percent_value a b c p d show ?thesis by blast
qed

theorem pnl_percent_no_division_error_witness:
  "show_pnl (moon_holder (0.05 ## - 0.05 ## sconst 0)) 7 =
     (Inr (Portfolio_PnL (- 5) (- 5 / 105 * 100), SELECTING_ACTION), moon_holder (sconst 0)) \<and>
   show_pnl (quiet_world (sconst 0)) 7 =
     (Inr (Portfolio_PnL 0 0, SELECTING_ACTION), quiet_world (sconst 0))"
proof -
  have h1: "get_portfolio_value (moon_holder (0.05 ## - 0.05 ## sconst 0)) 7 =
              (Inr 105, moon_holder (- 0.05 ## sconst 0))"
    by (simp add: get_portfolio_value_def get_token_price_def TOKENS_def moon_holder_def)
  have h2: "get_unrealized_pnl (moon_holder (- 0.05 ## sconst 0)) 7 =
              (Inr (- 5), moon_holder (sconst 0))"
    by (simp add: get_unrealized_pnl_def get_token_price_def TOKENS_def moon_holder_def)
  have h3: "get_portfolio_value (quiet_world (sconst 0)) 7 = (Inr 0, quiet_world (sconst 0))"
    by (simp add: get_portfolio_value_def quiet_world_def)
  have h4: "get_unrealized_pnl (quiet_world (sconst 0)) 7 = (Inr 0, quiet_world (sconst 0))"
    by (simp add: get_unrealized_pnl_def quiet_world_def)
  show ?thesis
    using pnl_percent_no_division_error
            [of "- 5" 105 "moon_holder (0.05 ## - 0.05 ## sconst 0)" 7
                "moon_holder (- 0.05 ## sconst 0)" "moon_holder (sconst 0)"]
          pnl_percent_no_division_error
            [of 0 0 "quiet_world (sconst 0)" 7 "quiet_world (sconst 0)" "quiet_world (sconst 0)"]
          h1 h2 h3 h4
    by simp
qed

text \<open>
  Claim C10. For a user id that is not a key of \<^verbatim>\<open>USERS\<close>, both valuation functions return
  0 and leave the world as it was, whereas \<^verbatim>\<open>get_user_data\<close> adds the account.
\<close>

theorem valuation_of_absent_user:
  assumes "USERS w user_id = None"
  shows "get_portfolio_value w user_id = (Inr 0, w) \<and>
         get_unrealized_pnl w user_id = (Inr 0, w) \<and>
         USERS (snd (get_user_data w user_id)) user_id \<noteq> None"
  using assms
  by (simp add: get_portfolio_value_def get_unrealized_pnl_def get_user_data_def Let_def)

theorem valuation_of_absent_user_witness:
  "get_portfolio_value (moon_holder (sconst 0)) 8 = (Inr 0, moon_holder (sconst 0)) \<and>
   get_unrealized_pnl (moon_holder (sconst 0)) 8 = (Inr 0, moon_holder (sconst 0)) \<and>
   USERS (snd (get_user_data (moon_holder (sconst 0)) 8)) 8 \<noteq> None"
proof -
  have h1: "USERS (moon_holder (sconst 0)) 8 = None"
    by (simp add: moon_holder_def)
  show ?thesis
    by (rule valuation_of_absent_user [OF h1])
qed

subsection \<open>The data-model invariant holds in every run\<close>

text \<open>
  The hypotheses on balances and quantities in the claims above are part of the invariant
  \<open>wf_user_data\<close>. It holds when nobody has an account, and every handler keeps it as
  long as the draws are in range and buys are for accepted symbols and amounts that are
  doubles. What the text "nan" or "inf" does to an account is outside the model.
\<close>

lemma set_update_subset: "set (AList.update k v al) \<subseteq> insert (k, v) (set al)"
  by (induction al) auto

lemma set_delete_subset: "set (AList.delete k al) \<subseteq> set al"
  by (auto simp: AList.delete_eq)

lemma wf_users_same: "USERS w' = USERS w \<Longrightarrow> wf_users w \<Longrightarrow> wf_users w'"
  by (simp add: wf_users_def)

lemma wf_users_upd:
  "wf_users w \<Longrightarrow> wf_user_data ud \<Longrightarrow> USERS w' = (USERS w)(user_id \<mapsto> ud) \<Longrightarrow> wf_users w'"
  by (simp add: wf_users_def)

lemma wf_seed: "wf_user_data \<lparr>holdings = [], sui_balance = 1000, referral_bonus = b\<rparr>"
  by (simp add: wf_user_data_def)

lemma get_user_data_wf: "wf_users w \<Longrightarrow> wf_users (snd (get_user_data w user_id))"
  by (auto simp: get_user_data_def Let_def wf_users_def wf_seed split: option.splits)

lemma reset_portfolio_wf: "wf_users w \<Longrightarrow> wf_users (snd (reset_portfolio w user_id))"
  by (auto simp: reset_portfolio_def wf_users_def wf_seed)


lemma format_main_menu_wf: "wf_users w \<Longrightarrow> wf_users (snd (format_main_menu w user_id))"
  using get_user_data_wf [of w user_id]
  by (simp add: wf_users_def format_main_menu_USERS)

lemma TOKENS_price_le: "map_of TOKENS symbol = Some t \<Longrightarrow> price t \<le> 5 / 4"
  by (auto simp: TOKENS_def split: if_splits)

text \<open>
  The price of an accepted symbol at a draw in range is positive and below 2, so the
  quantity that a positive double amount buys is not rounded to zero.
\<close>

lemma accepted_buy_quantity_pos:
  assumes acc: "buy_token_accepted token" and dr: "draws_in_range w"
    and gp: "fst (get_token_price w token) = Inr p"
    and amt: "0 < amount" and dbl: "fl amount = amount"
  shows "0 < p" and "p < 2" and "0 < fl (amount / p)"
proof -
  from get_token_price_accepted [OF acc, of w] obtain t :: token_info where
    tk: "map_of TOKENS token = Some t" and t: "0 < price t" and
    gp': "get_token_price w token =
            (Inr (price t * (1 + shd (draws w))), w\<lparr>draws := stl (draws w)\<rparr>)"
    by blast
  have pd: "p = price t * (1 + shd (draws w))" using gp gp' by simp
  have f: "- 0.05 \<le> shd (draws w)" "shd (draws w) \<le> 0.05"
    using dr shd_sset [of "draws w"] by (auto simp: draws_in_range_def)
  then have f1: "0 < 1 + shd (draws w)" by simp
  then show p: "0 < p" using t by (simp add: pd)
  have "p \<le> price t * 1.05"
    unfolding pd using t f(2) by (intro mult_left_mono) auto
  also have "\<dots> \<le> 5 / 4 * 1.05"
    using TOKENS_price_le [OF tk] by (intro mult_right_mono) auto
  finally show p2: "p < 2" by simp
  show "0 < fl (amount / p)"
    using amt dbl p p2 by (rule quantity_bought_pos)
qed

lemma process_buy_amount_wf:
  assumes wf: "wf_users w" and dr: "draws_in_range w" and acc: "buy_token_accepted token"
    and dbl: "case text of None \<Rightarrow> True | Some amount \<Rightarrow> fl amount = amount"
  shows "wf_users (snd (process_buy_amount w user_id token text))"
proof (cases "text")
  case None
  then show ?thesis using wf by (simp add: process_buy_amount_def)
next
  case (Some amount)
  then have dbl': "fl amount = amount" using dbl by simp
  show ?thesis
  proof (cases "USERS w user_id")
    case None
    then show ?thesis using wf Some by (simp add: process_buy_amount_def)
  next
    case ud: (Some ud)
    then have wfud: "wf_user_data ud" using wf by (simp add: wf_users_def)
    show ?thesis
    proof (cases "amount \<le> 0 \<or> amount > sui_balance ud")
      case True
      then show ?thesis using wf Some ud by (auto simp: process_buy_amount_def)
    next
      case False
      then have amt: "0 < amount" "amount \<le> sui_balance ud" by auto
      from get_token_price_accepted [OF acc, of w] obtain t :: token_info where
        tk: "map_of TOKENS token = Some t" and t: "0 < price t" and
        gp: "get_token_price w token =
               (Inr (price t * (1 + shd (draws w))), w\<lparr>draws := stl (draws w)\<rparr>)"
        by blast
      define p where "p = price t * (1 + shd (draws w))"
      have f: "- 0.05 \<le> shd (draws w)" "shd (draws w) \<le> 0.05"
        using dr shd_sset [of "draws w"] by (auto simp: draws_in_range_def)
      then have f1: "0 < 1 + shd (draws w)" by simp
      then have p: "0 < p" using t by (simp add: p_def)
      have "p \<le> price t * 1.05"
        unfolding p_def using t f(2) by (intro mult_left_mono) auto
      also have "\<dots> \<le> 5 / 4 * 1.05"
        using TOKENS_price_le [OF tk] by (intro mult_right_mono) auto
      finally have p2: "p < 2" by simp
      define q where "q = fl (amount / p)"
      have q: "0 < q"
        unfolding q_def using amt(1) dbl' p p2 by (rule quantity_bought_pos)
      define old where "old = (case map_of (holdings ud) token of
                                 None \<Rightarrow> \<lparr>quantity = 0, avg_price = 0\<rparr> | Some h \<Rightarrow> h)"
      have oldq: "0 \<le> quantity old"
      proof (cases "map_of (holdings ud) token")
        case None
        then show ?thesis by (simp add: old_def)
      next
        case (Some h)
        then have "(token, h) \<in> set (holdings ud)" by (rule map_of_SomeD)
        then have "0 < quantity h" using wfud by (auto simp: wf_user_data_def)
        then show ?thesis using Some by (simp add: old_def)
      qed
      have nq: "0 < float_add (quantity old) q"
        unfolding q_def using oldq q [unfolded q_def] by (rule float_add_pos)
      define new where
        "new = \<lparr>quantity = float_add (quantity old) q,
                avg_price =
                  fl (float_add (float_mul (quantity old) (avg_price old)) (float_mul q p) /
                      float_add (quantity old) q)\<rparr>"
      define ud' where
        "ud' = ud\<lparr>holdings := AList.update token new (holdings ud),
                  sui_balance := float_sub (sui_balance ud) amount\<rparr>"
      have res: "USERS (snd (process_buy_amount w user_id token text)) =
                   (USERS w)(user_id \<mapsto> ud')"
        using Some ud amt p nq gp
        by (auto simp: process_buy_amount_def float_truediv_def Let_def p_def [symmetric]
            q_def [symmetric] old_def new_def ud'_def split: option.splits)
      have "0 \<le> float_sub (sui_balance ud) amount"
        unfolding float_sub_def using amt(2) by (intro fl_nonneg) simp
      then have "wf_user_data ud'"
        using wfud nq acc set_update_subset [of token new "holdings ud"]
        by (auto simp: wf_user_data_def ud'_def AList.distinct_update new_def)
      with wf show ?thesis using res by (rule wf_users_upd)
    qed
  qed
qed

lemma process_sell_quantity_wf:
  assumes wf: "wf_users w" and dr: "draws_in_range w"
  shows "wf_users (snd (process_sell_quantity w user_id token text))"
proof (cases "text")
  case None
  then show ?thesis using wf by (simp add: process_sell_quantity_def)
next
  case (Some qty)
  show ?thesis
  proof (cases "USERS w user_id")
    case None
    then show ?thesis using wf Some by (simp add: process_sell_quantity_def)
  next
    case ud: (Some ud)
    then have wfud: "wf_user_data ud" using wf by (simp add: wf_users_def)
    show ?thesis
    proof (cases "map_of (holdings ud) token")
      case None
      then show ?thesis using wf Some ud by (simp add: process_sell_quantity_def)
    next
      case h: (Some h)
      show ?thesis
      proof (cases "qty \<le> 0 \<or> qty > quantity h")
        case True
        then show ?thesis using wf Some ud h by (auto simp: process_sell_quantity_def)
      next
        case False
        then have qty: "0 < qty" "qty \<le> quantity h" by auto
        have "(token, h) \<in> set (holdings ud)" using h by (rule map_of_SomeD)
        then have acc: "buy_token_accepted token"
          using wfud by (auto simp: wf_user_data_def)
        from get_token_price_accepted [OF acc, of w] obtain t :: token_info where
          t: "0 < price t" and
          gp: "get_token_price w token =
                 (Inr (price t * (1 + shd (draws w))), w\<lparr>draws := stl (draws w)\<rparr>)"
          by blast
        define p where "p = price t * (1 + shd (draws w))"
        have "- 0.05 \<le> shd (draws w)"
          using dr shd_sset [of "draws w"] by (auto simp: draws_in_range_def)
        then have "0 < 1 + shd (draws w)" by simp
        then have p: "0 < p" using t by (simp add: p_def)
        define hs where
          "hs = (if quantity h - qty = 0 then AList.delete token (holdings ud)
                 else AList.update token (h\<lparr>quantity := quantity h - qty\<rparr>) (holdings ud))"
        define ud' where
          "ud' = ud\<lparr>holdings := hs, sui_balance := sui_balance ud + qty * p\<rparr>"
        have res: "USERS (snd (process_sell_quantity w user_id token text)) =
                     (USERS w)(user_id \<mapsto> ud')"
          using Some ud h qty gp
          by (simp add: process_sell_quantity_def Let_def p_def [symmetric] hs_def ud'_def)
        have "0 \<le> qty * p" using qty p by simp
        then have bal: "0 \<le> sui_balance ud + qty * p"
          using wfud by (simp add: wf_user_data_def)
        have "wf_user_data ud'"
        proof (cases "quantity h - qty = 0")
          case True
          then show ?thesis
            using wfud bal set_delete_subset [of token "holdings ud"]
            by (auto simp: wf_user_data_def ud'_def hs_def AList.distinct_delete)
        next
          case False
          then have "0 < quantity h - qty" using qty by simp
          then show ?thesis
            using wfud bal acc False
              set_update_subset [of token "h\<lparr>quantity := quantity h - qty\<rparr>" "holdings ud"]
            by (auto simp: wf_user_data_def ud'_def hs_def AList.distinct_update)
        qed
        with wf show ?thesis using res by (rule wf_users_upd)
      qed
    qed
  qed
qed

lemma handle_wf:
  assumes "wf_world w" and "accepted_event ev"
  shows "wf_world (snd (handle w ev))"
proof -
  have wf: "wf_users w" and dr: "draws_in_range w"
    using assms(1) by (simp_all add: wf_world_def)
  have "wf_users (snd (handle w ev))"
  proof (cases ev)
    case (Start user_id)
    obtain ud w0 where 0: "get_user_data w user_id = (ud, w0)" by force
    have "wf_users w0" using get_user_data_wf [OF wf, of user_id] 0 by simp
    then have "wf_users (snd (format_main_menu w0 user_id))"
      by (rule format_main_menu_wf)
    then show ?thesis
      using Start 0 by (auto simp: start_def split: prod.splits sum.splits)
  next
    case (Process_buy_amount user_id token msg)
    then show ?thesis
      using assms(2) process_buy_amount_wf [OF wf dr, of token msg user_id] by simp
  next
    case (Process_sell_quantity user_id token msg)
    then show ?thesis
      using process_sell_quantity_wf [OF wf dr] by simp
  next
    case (Reset_portfolio user_id)
    then show ?thesis using reset_portfolio_wf [OF wf] by simp
  next
    case (Back_to_main user_id)
    then show ?thesis
      using format_main_menu_wf [OF wf, of user_id]
      by (auto simp: back_to_main_def split: prod.splits sum.splits)
  next
    case (Show_balance user_id)
    then show ?thesis
      using get_user_data_wf [OF wf, of user_id]
      by (auto simp: show_balance_def split: prod.splits option.splits)
  next
    case (Show_pnl user_id)
    then show ?thesis
      using wf by (simp add: wf_users_def show_pnl_USERS)
  next
    case View_tokens
    then show ?thesis
      using wf by (simp add: wf_users_def view_tokens_USERS)
  next
    case (Show_portfolio user_id)
    then show ?thesis
      using wf by (simp add: wf_users_def show_portfolio_USERS)
  next
    case (Start_sell user_id)
    then show ?thesis
      using wf by (simp add: start_sell_snd)
  qed
  then show ?thesis
    using handle_draws_in_range [OF dr, of ev] by (simp add: wf_world_def)
qed

lemma run_wf: "wf_world w \<Longrightarrow> list_all accepted_event evs \<Longrightarrow> wf_world (run w evs)"
  by (induction evs arbitrary: w) (simp_all add: handle_wf)

text \<open>What the invariant gives for one account: the hypotheses of the claims C1, C3 and C4.\<close>

lemma wf_world_account:
  assumes "wf_world w" and "USERS w user_id = Some ud"
  shows "0 \<le> sui_balance ud"
    and "\<forall>h. map_of (holdings ud) token = Some h \<longrightarrow> 0 < quantity h"
proof -
  have wf: "wf_user_data ud"
    using assms by (simp add: wf_world_def wf_users_def)
  then show "0 \<le> sui_balance ud"
    by (simp add: wf_user_data_def)
  show "\<forall>h. map_of (holdings ud) token = Some h \<longrightarrow> 0 < quantity h"
  proof (intro allI impI)
    fix h
    assume "map_of (holdings ud) token = Some h"
    then have "(token, h) \<in> set (holdings ud)" by (rule map_of_SomeD)
    then show "0 < quantity h" using wf by (auto simp: wf_user_data_def)
  qed
qed

lemma quiet_world_wf:
  "\<forall>f \<in> sset ds. - 0.05 \<le> f \<and> f \<le> 0.05 \<Longrightarrow> wf_world (quiet_world ds)"
  by (simp add: wf_world_def wf_users_def draws_in_range_def quiet_world_def)

subsection \<open>The referral bonus after a reset\<close>

lemma priced_Nil: "priced []"
  by (simp add: priced_def)

lemma priced_update: "priced (AList.update k v hs) \<longleftrightarrow> map_of TOKENS k \<noteq> None \<and> priced hs"
  by (simp add: priced_def AList.dom_update)

lemma priced_delete: "priced hs \<Longrightarrow> priced (AList.delete k hs)"
  by (auto simp: priced_def AList.delete_eq)

lemma get_user_data_no_bonus:
  "no_bonus w u \<Longrightarrow> no_bonus (snd (get_user_data w user_id)) u"
  by (auto simp: no_bonus_def get_user_data_def Let_def split: option.splits)

lemma format_main_menu_no_bonus:
  "no_bonus w u \<Longrightarrow> no_bonus (snd (format_main_menu w user_id)) u"
  using get_user_data_no_bonus [of w u user_id]
  by (simp add: no_bonus_def format_main_menu_USERS)

lemma back_to_main_snd: "snd (back_to_main w user_id) = snd (format_main_menu w user_id)"
  by (simp add: back_to_main_def split: prod.splits sum.splits)

lemma start_no_bonus:
  assumes "no_bonus w u"
  shows "no_bonus (snd (start w user_id)) u"
proof -
  obtain ud w0 where 0: "get_user_data w user_id = (ud, w0)" by force
  have "no_bonus w0 u" using get_user_data_no_bonus [OF assms, of user_id] 0 by simp
  then have "no_bonus (snd (format_main_menu w0 user_id)) u"
    by (rule format_main_menu_no_bonus)
  then show ?thesis
    using 0 by (auto simp: start_def split: prod.splits sum.splits)
qed

lemma show_balance_no_bonus:
  "no_bonus w u \<Longrightarrow> no_bonus (snd (show_balance w user_id)) u"
  using get_user_data_no_bonus [of w u user_id]
  by (auto simp: show_balance_def split: prod.splits option.splits)

lemma reset_portfolio_no_bonus:
  "no_bonus w u \<Longrightarrow> no_bonus (snd (reset_portfolio w user_id)) u"
  by (simp add: no_bonus_def reset_portfolio_def priced_Nil)

lemma process_buy_amount_no_bonus:
  assumes "no_bonus w u"
  shows "no_bonus (snd (process_buy_amount w user_id token text)) u"
proof -
  obtain r1 w1 where 1: "get_token_price w token = (r1, w1)" by force
  have "USERS w1 = USERS w" using get_token_price_USERS [of w token] 1 by simp
  then show ?thesis
    using assms 1
    by (auto simp: no_bonus_def process_buy_amount_def Let_def priced_update
        get_token_price_def split: option.splits sum.splits)
qed

lemma process_sell_quantity_no_bonus:
  assumes "no_bonus w u"
  shows "no_bonus (snd (process_sell_quantity w user_id token text)) u"
proof -
  obtain r1 w1 where 1: "get_token_price w token = (r1, w1)" by force
  have "USERS w1 = USERS w" using get_token_price_USERS [of w token] 1 by simp
  then show ?thesis
    using assms 1
    by (auto simp: no_bonus_def process_sell_quantity_def Let_def priced_update priced_delete
        get_token_price_def split: option.splits sum.splits)
qed

lemma handle_no_bonus:
  assumes "no_bonus w u"
  shows "no_bonus (snd (handle w ev)) u"
proof (cases ev)
  case (Show_pnl user_id)
  then show ?thesis
    using assms by (simp add: no_bonus_def show_pnl_USERS)
next
  case View_tokens
  then show ?thesis
    using assms by (simp add: no_bonus_def view_tokens_USERS)
next
  case (Show_portfolio user_id)
  then show ?thesis
    using assms by (simp add: no_bonus_def show_portfolio_USERS)
next
  case (Start_sell user_id)
  then show ?thesis
    using assms by (simp add: start_sell_snd)
qed (simp_all add: assms start_no_bonus process_buy_amount_no_bonus
      process_sell_quantity_no_bonus reset_portfolio_no_bonus format_main_menu_no_bonus
      back_to_main_snd show_balance_no_bonus)

lemma run_no_bonus: "no_bonus w u \<Longrightarrow> no_bonus (run w evs) u"
  by (induction evs arbitrary: w) (simp_all add: handle_no_bonus)

lemma portfolio_value_loop_priced:
  "priced hs \<Longrightarrow> \<exists>v. fst (portfolio_value_loop hs acc w) = Inr v"
proof (induction hs acc w rule: portfolio_value_loop.induct)
  case (1 total_value w)
  then show ?case by simp
next
  case (2 token h rest total_value w)
  then show ?case
    by (auto simp: priced_def get_token_price_def Let_def)
qed

lemma unrealized_pnl_loop_priced:
  "priced hs \<Longrightarrow> \<exists>v. fst (unrealized_pnl_loop hs acc w) = Inr v"
proof (induction hs acc w rule: unrealized_pnl_loop.induct)
  case (1 total_pnl w)
  then show ?case by simp
next
  case (2 token h rest total_pnl w)
  then show ?case
    by (auto simp: priced_def get_token_price_def Let_def)
qed

lemma no_bonus_format_main_menu:
  assumes "no_bonus w user_id"
  shows "fst (format_main_menu w user_id) = Inl (KeyError (Key_str ''referral_bonus''))"
proof -
  from assms obtain ud where ud: "USERS w user_id = Some ud" "referral_bonus ud = None"
    and pr: "priced (holdings ud)"
    by (auto simp: no_bonus_def split: option.splits)
  then have 0: "get_user_data w user_id = (ud, w)"
    by (simp add: get_user_data_def)
  obtain r1 w1 where 1: "get_portfolio_value w user_id = (r1, w1)" by force
  obtain r2 w2 where 2: "get_unrealized_pnl w1 user_id = (r2, w2)" by force
  have "USERS w1 = USERS w"
    using get_portfolio_value_USERS [of w user_id] 1 by simp
  then have ud1: "USERS w1 user_id = Some ud" using ud(1) by simp
  obtain v1 where "r1 = Inr v1"
    using portfolio_value_loop_priced [OF pr, of 0 w] 1 ud(1)
    by (auto simp: get_portfolio_value_def)
  moreover obtain v2 where "r2 = Inr v2"
    using unrealized_pnl_loop_priced [OF pr, of 0 w1] 2 ud1
    by (auto simp: get_unrealized_pnl_def)
  ultimately show ?thesis
    using 0 1 2 ud(2) by (simp add: format_main_menu_def pnl_percent_value)
qed

lemma no_bonus_show_balance:
  assumes "no_bonus w user_id"
  shows "fst (show_balance w user_id) = Inl (KeyError (Key_str ''referral_bonus''))"
proof -
  from assms obtain ud where ud: "USERS w user_id = Some ud" "referral_bonus ud = None"
    by (auto simp: no_bonus_def split: option.splits)
  then show ?thesis
    by (simp add: show_balance_def get_user_data_def)
qed

text \<open>
  Claim C9. \<^verbatim>\<open>get_user_data\<close> creates an account with the bonus 500;
  \<^verbatim>\<open>reset_portfolio\<close> stores an account without the key \<^verbatim>\<open>"referral_bonus"\<close>; and after a
  reset of the user, whatever events follow, the main menu (through \<^verbatim>\<open>format_main_menu\<close>,
  \<^verbatim>\<open>back_to_main\<close> or \<^verbatim>\<open>start\<close>) and \<^verbatim>\<open>show_balance\<close> end in the
  \<^verbatim>\<open>KeyError\<close> of that key for this user.
\<close>

theorem referral_bonus_lost_by_reset:
  "(USERS w0 user_id = None \<longrightarrow>
      referral_bonus (fst (get_user_data w0 user_id)) = Some 500 \<and>
      USERS (snd (get_user_data w0 user_id)) user_id = Some (fst (get_user_data w0 user_id))) \<and>
   (\<exists>ud. USERS (snd (reset_portfolio w user_id)) user_id = Some ud \<and>
      referral_bonus ud = None) \<and>
   fst (format_main_menu (run (snd (reset_portfolio w user_id)) evs) user_id) =
     Inl (KeyError (Key_str ''referral_bonus'')) \<and>
   fst (back_to_main (run (snd (reset_portfolio w user_id)) evs) user_id) =
     Inl (KeyError (Key_str ''referral_bonus'')) \<and>
   fst (start (run (snd (reset_portfolio w user_id)) evs) user_id) =
     Inl (KeyError (Key_str ''referral_bonus'')) \<and>
   fst (show_balance (run (snd (reset_portfolio w user_id)) evs) user_id) =
     Inl (KeyError (Key_str ''referral_bonus''))"
proof -
  let ?w = "run (snd (reset_portfolio w user_id)) evs"
  have "no_bonus (snd (reset_portfolio w user_id)) user_id"
    by (simp add: no_bonus_def reset_portfolio_def priced_Nil)
  then have nb: "no_bonus ?w user_id"
    by (rule run_no_bonus)
  have m: "fst (format_main_menu ?w user_id) = Inl (KeyError (Key_str ''referral_bonus''))"
    using nb by (rule no_bonus_format_main_menu)
  have b: "fst (back_to_main ?w user_id) = Inl (KeyError (Key_str ''referral_bonus''))"
    using m by (auto simp: back_to_main_def split: prod.splits sum.splits)
  from nb obtain ud where ud: "USERS ?w user_id = Some ud"
    by (auto simp: no_bonus_def split: option.splits)
  then have "get_user_data ?w user_id = (ud, ?w)"
    by (simp add: get_user_data_def)
  then have s: "fst (start ?w user_id) = Inl (KeyError (Key_str ''referral_bonus''))"
    using m by (auto simp: start_def split: prod.splits sum.splits)
  have sb: "fst (show_balance ?w user_id) = Inl (KeyError (Key_str ''referral_bonus''))"
    using nb by (rule no_bonus_show_balance)
  have c: "USERS w0 user_id = None \<longrightarrow>
      referral_bonus (fst (get_user_data w0 user_id)) = Some 500 \<and>
      USERS (snd (get_user_data w0 user_id)) user_id = Some (fst (get_user_data w0 user_id))"
    by (simp add: get_user_data_def REFERRAL_BONUS_def Let_def)
  have r: "\<exists>ud. USERS (snd (reset_portfolio w user_id)) user_id = Some ud \<and>
      referral_bonus ud = None"
    by (simp add: reset_portfolio_def)
  from c r m b s sb show ?thesis by blast
qed

theorem referral_bonus_lost_by_reset_witness:
  "USERS (quiet_world (sconst 0)) 7 = None \<and>
   referral_bonus (fst (get_user_data (quiet_world (sconst 0)) 7)) = Some 500 \<and>
   fst (format_main_menu
          (run (snd (reset_portfolio (snd (get_user_data (quiet_world (sconst 0)) 7)) 7))
             [Process_buy_amount 7 ''MOON'' (Some 100), Show_pnl 7]) 7) =
     Inl (KeyError (Key_str ''referral_bonus'')) \<and>
   fst (show_balance
          (run (snd (reset_portfolio (snd (get_user_data (quiet_world (sconst 0)) 7)) 7))
             [Process_buy_amount 7 ''MOON'' (Some 100), Show_pnl 7]) 7) =
     Inl (KeyError (Key_str ''referral_bonus''))"
proof -
  have h: "USERS (quiet_world (sconst 0)) 7 = None"
    by (simp add: quiet_world_def)
  show ?thesis
    using h referral_bonus_lost_by_reset
            [of "quiet_world (sconst 0)" 7 "snd (get_user_data (quiet_world (sconst 0)) 7)"
                "[Process_buy_amount 7 ''MOON'' (Some 100), Show_pnl 7]"]
    by simp
qed

end
